theory Spec2Isabelle
  imports Complex_Main "HOL-Library.Multiset"
begin

text \<open>
  A shallow embedding of \<^verbatim>\<open>time_me/coach.py\<close>: the normalisation of argument sets, the
  recursive sanity comparison, the Orchestrator with its three repetition policies, the
  Outcome with its ordering, the comparison of measured candidates and the annotations
  of the bar chart. Exceptions are values of the type \<open>error\<close>, the mutable objects live
  in an explicit \<open>world\<close> that every operation takes and returns, and a run that never
  returns is the value \<open>None\<close>.
\<close>

section \<open>Python values\<close>

text \<open>
  The values that flow through \<^verbatim>\<open>coach.py\<close>: argument sets, fixture keys, expected and
  actual results. Python ints are unbounded (\<open>int\<close>); Python floats are idealised as
  \<open>real\<close> (no rounding, no overflow, no NaN). \<open>PItems\<close> is the view returned by
  \<^verbatim>\<open>dict.items()\<close>; \<open>PObj i\<close> is an opaque object with identity \<open>i\<close> that is neither
  numeric nor iterable. A dict is an association list in insertion order.
\<close>

datatype pyval =
    PNone
  | PBool bool
  | PInt int
  | PFloat real
  | PStr string
  | PTuple "pyval list"
  | PList "pyval list"
  | PDict "(pyval \<times> pyval) list"
  | PItems "(pyval \<times> pyval) list"
  | PObj nat

datatype pytype = TNone | TBool | TInt | TFloat | TStr | TTuple | TList | TDict | TItems | TObject

fun type_of :: "pyval \<Rightarrow> pytype" where
  "type_of PNone = TNone"
| "type_of (PBool b) = TBool"
| "type_of (PInt i) = TInt"
| "type_of (PFloat x) = TFloat"
| "type_of (PStr s) = TStr"
| "type_of (PTuple xs) = TTuple"
| "type_of (PList xs) = TList"
| "type_of (PDict d) = TDict"
| "type_of (PItems d) = TItems"
| "type_of (PObj i) = TObject"

text \<open>\<^verbatim>\<open>float(x)\<close> for the values with \<^verbatim>\<open>isinstance(x, (float, int))\<close>; bool is a subclass of int.\<close>

fun float_of :: "pyval \<Rightarrow> real option" where
  "float_of (PBool b) = Some (if b then 1 else 0)"
| "float_of (PInt i) = Some (of_int i)"
| "float_of (PFloat x) = Some x"
| "float_of _ = None"

definition is_number :: "pyval \<Rightarrow> bool" where
  "is_number v = (float_of v \<noteq> None)"

text \<open>\<^verbatim>\<open>iter(x)\<close>: the elements an iterable yields, \<open>None\<close> for a value that is not Iterable.
  A string yields its one-character strings, a dict its keys, an items view its pairs.\<close>

fun py_iter :: "pyval \<Rightarrow> pyval list option" where
  "py_iter (PStr s) = Some (map (\<lambda>c. PStr [c]) s)"
| "py_iter (PTuple xs) = Some xs"
| "py_iter (PList xs) = Some xs"
| "py_iter (PDict d) = Some (map fst d)"
| "py_iter (PItems d) = Some (map (\<lambda>kv. PTuple [fst kv, snd kv]) d)"
| "py_iter _ = None"

definition is_Iterable :: "pyval \<Rightarrow> bool" where
  "is_Iterable v = (py_iter v \<noteq> None)"

fun is_Mapping :: "pyval \<Rightarrow> bool" where
  "is_Mapping (PDict d) = True"
| "is_Mapping _ = False"

fun items :: "pyval \<Rightarrow> pyval" where
  "items (PDict d) = PItems d"
| "items v = v"

text \<open>Python's \<^verbatim>\<open>==\<close>: numbers compare by value across bool, int and float; tuples and
  lists compare element by element within their own kind; dicts and items views compare
  as sets of pairs; everything else by kind and content (objects by identity).\<close>

fun py_eq :: "pyval \<Rightarrow> pyval \<Rightarrow> bool" where
  "py_eq PNone b = (b = PNone)"
| "py_eq (PBool x) b = (case float_of b of Some y \<Rightarrow> (if x then 1 else 0) = y | None \<Rightarrow> False)"
| "py_eq (PInt x) b = (case float_of b of Some y \<Rightarrow> of_int x = y | None \<Rightarrow> False)"
| "py_eq (PFloat x) b = (case float_of b of Some y \<Rightarrow> x = y | None \<Rightarrow> False)"
| "py_eq (PStr s) b = (b = PStr s)"
| "py_eq (PObj i) b = (b = PObj i)"
| "py_eq (PTuple xs) b = (case b of PTuple ys \<Rightarrow> list_all2 py_eq xs ys | _ \<Rightarrow> False)"
| "py_eq (PList xs) b = (case b of PList ys \<Rightarrow> list_all2 py_eq xs ys | _ \<Rightarrow> False)"
| "py_eq (PDict d) b = (case b of PDict d' \<Rightarrow> length d = length d' \<and>
      list_all (\<lambda>kv. list_ex (\<lambda>kv'. py_eq (fst kv) (fst kv') \<and> py_eq (snd kv) (snd kv')) d') d
    | _ \<Rightarrow> False)"
| "py_eq (PItems d) b = (case b of PItems d' \<Rightarrow> length d = length d' \<and>
      list_all (\<lambda>kv. list_ex (\<lambda>kv'. py_eq (fst kv) (fst kv') \<and> py_eq (snd kv) (snd kv')) d') d
    | _ \<Rightarrow> False)"

section \<open>Errors\<close>

text \<open>
  Every \<^verbatim>\<open>raise\<close> of \<^verbatim>\<open>coach.py\<close> and every exception of the interpreter that its code
  can meet. \<open>ValueError_vs expected actual\<close> is \<^verbatim>\<open>ValueError(f'{expected} vs {actual}')\<close>;
  \<open>ValueError_positional\<close> and \<open>ValueError_keyword\<close> are the two errors of \<^verbatim>\<open>trial\<close>;
  \<open>ValueError_tolerances\<close> is what \<^verbatim>\<open>math.isclose\<close> raises on a negative tolerance;
  \<open>Raised v\<close> is an exception raised by a candidate itself.
\<close>

datatype error =
    TypeError pyval
  | ValueError_vs pyval pyval
  | ValueError_positional int
  | ValueError_keyword string
  | ValueError_tolerances
  | ZeroDivisionError
  | RecursionError
  | IndexError
  | Raised pyval

section \<open>Argument sets\<close>

text \<open>
  \<^verbatim>\<open>parse_argset\<close>, branch by branch in the order of the source: an explicit
  (tuple, dict) pair is returned as it is, any Iterable \<open>a\<close> becomes \<open>(a, {})\<close>, a Mapping
  becomes \<open>((), a)\<close>, anything else raises \<^verbatim>\<open>TypeError(a)\<close>.
\<close>

fun is_explicit_pair :: "pyval \<Rightarrow> bool" where
  "is_explicit_pair (PTuple [PTuple xs, PDict d]) = True"
| "is_explicit_pair _ = False"

fun pair_of :: "pyval \<Rightarrow> pyval \<times> pyval" where
  "pair_of (PTuple [x, y]) = (x, y)"
| "pair_of v = (v, v)"

definition parse_argset :: "pyval \<Rightarrow> error + (pyval \<times> pyval)" where
  "parse_argset a =
     (if is_explicit_pair a then Inr (pair_of a)
      else if is_Iterable a then Inr (a, PDict [])
      else if is_Mapping a then Inr (PTuple [], a)
      else Inl (TypeError a))"

section \<open>The sanity comparison\<close>

text \<open>
  \<^verbatim>\<open>math.isclose(a, b, abs_tol=t)\<close> with the default relative tolerance \<open>1e-09\<close>:
  a negative tolerance raises, otherwise the values are close when they are equal or
  differ by at most the relative tolerance times either magnitude or by at most \<open>t\<close>.
\<close>

definition rel_tol :: real where
  "rel_tol = 1 / 10 ^ 9"

definition isclose :: "real \<Rightarrow> real \<Rightarrow> real \<Rightarrow> error + bool" where
  "isclose a b abs_tol =
     (if abs_tol < 0 then Inl ValueError_tolerances
      else Inr (a = b \<or> \<bar>b - a\<bar> \<le> \<bar>rel_tol * b\<bar> \<or> \<bar>b - a\<bar> \<le> \<bar>rel_tol * a\<bar>
                \<or> \<bar>b - a\<bar> \<le> abs_tol))"

text \<open>
  The \<^verbatim>\<open>while True\<close> loop of \<^verbatim>\<open>Coach.sane\<close> over the two iterators: both exhausted together
  gives \<open>True\<close>, one exhausted before the other or a pair that is not sane gives \<open>False\<close>
  (the \<^verbatim>\<open>break\<close>s fall through to \<^verbatim>\<open>return False\<close>). \<open>f\<close> is the recursive call.
\<close>

fun sane_loop :: "(pyval \<Rightarrow> pyval \<Rightarrow> error + bool) \<Rightarrow> pyval list \<Rightarrow> pyval list \<Rightarrow> error + bool" where
  "sane_loop f [] [] = Inr True"
| "sane_loop f [] (y # ys) = Inr False"
| "sane_loop f (x # xs) [] = Inr False"
| "sane_loop f (x # xs) (y # ys) =
     (case f x y of
        Inl e \<Rightarrow> Inl e
      | Inr ok \<Rightarrow> if ok then sane_loop f xs ys else Inr False)"

text \<open>
  \<^verbatim>\<open>Coach.sane(expected_value, actual)\<close> with tolerance \<open>tol\<close> (\<^verbatim>\<open>self._sanity_tol\<close>).
  The first argument is the number of interpreter frames left: every nested call of
  \<^verbatim>\<open>self.sane\<close> takes one, and with none left the interpreter raises \<^verbatim>\<open>RecursionError\<close>.
\<close>

primrec sane :: "nat \<Rightarrow> real \<Rightarrow> pyval \<Rightarrow> pyval \<Rightarrow> error + bool" where
  "sane 0 tol expected_value actual = Inl RecursionError"
| "sane (Suc d) tol expected_value actual =
     (if py_eq expected_value actual then Inr True
      else
        (case (if is_number actual \<and> is_number expected_value
               then isclose (the (float_of actual)) (the (float_of expected_value)) tol
               else Inr False) of
           Inl e \<Rightarrow> Inl e
         | Inr close \<Rightarrow>
             if close then Inr True
             else
               (case (if is_Mapping actual \<and> is_Mapping expected_value
                      then sane d tol (items expected_value) (items actual)
                      else Inr False) of
                  Inl e \<Rightarrow> Inl e
                | Inr same_items \<Rightarrow>
                    if same_items then Inr True
                    else if is_Iterable actual \<and> is_Iterable expected_value
                            \<and> type_of expected_value = type_of actual
                    then sane_loop (sane d tol) (the (py_iter expected_value)) (the (py_iter actual))
                    else Inr False)))"

section \<open>Candidates, wrappers and outcomes\<close>

text \<open>
  A callable is known by what it does when it is invoked: given the number of invocations
  that happened before in this run of the program, the positional and the keyword
  arguments, it returns a value or raises, and it takes some seconds of wall-clock time
  (what a measurement window around the call observes).
\<close>

type_synonym kwargs = "(string \<times> pyval) list"

type_synonym behaviour = "nat \<Rightarrow> pyval list \<Rightarrow> kwargs \<Rightarrow> (error + pyval) \<times> real"

text \<open>
  Modelled from the spec: the Invocation Wrapper (\<^verbatim>\<open>Runner\<close> and \<^verbatim>\<open>ObjectRunner\<close> of
  \<^verbatim>\<open>time_me/runner.py\<close>, which is not among the sources). It wraps one target, holds a
  display name, has an identity, and remembers the Outcome each Orchestrator produced for
  it (the mapping \<^verbatim>\<open>__results__\<close>, kept in the world below because it is mutated).
\<close>

record runner =
  runner_id :: nat
  runner_name :: pyval
  target :: behaviour

definition Runner :: "nat \<Rightarrow> pyval \<Rightarrow> behaviour \<Rightarrow> runner" where
  "Runner ident name f = \<lparr>runner_id = ident, runner_name = name, target = f\<rparr>"

text \<open>
  \<^verbatim>\<open>Coach.Result\<close>: the fields \<^verbatim>\<open>runner\<close>, \<^verbatim>\<open>total_time\<close> and \<^verbatim>\<open>n\<close>, and the identity of the
  object (the class defines no \<^verbatim>\<open>__eq__\<close> and no \<^verbatim>\<open>__hash__\<close>, so \<^verbatim>\<open>==\<close>, \<^verbatim>\<open>in\<close> and set
  membership go by identity).
\<close>

record result =
  result_id :: nat
  runner_of :: runner
  total_time :: real
  n_of :: int

text \<open>\<^verbatim>\<open>Result.__init__(runner, total_time, n)\<close>, for the new object's identity \<open>ident\<close>.\<close>

definition Result :: "nat \<Rightarrow> runner \<Rightarrow> real \<Rightarrow> int \<Rightarrow> result" where
  "Result ident r total_seconds n =
     \<lparr>result_id = ident, runner_of = r, total_time = total_seconds, n_of = n\<rparr>"

text \<open>Python's \<^verbatim>\<open>/\<close> on two numbers, the result a float: dividing by zero raises.\<close>

definition float_truediv :: "real \<Rightarrow> real \<Rightarrow> error + real" where
  "float_truediv x y = (if y = 0 then Inl ZeroDivisionError else Inr (x / y))"

text \<open>\<^verbatim>\<open>Result.__float__\<close>: \<^verbatim>\<open>self.total_time / self.n\<close>.\<close>

definition result_float :: "result \<Rightarrow> error + real" where
  "result_float r = float_truediv (total_time r) (of_int (n_of r))"

text \<open>The four comparisons, each \<^verbatim>\<open>float(self) OP float(other)\<close>, the left operand first.\<close>

definition result_lt :: "result \<Rightarrow> result \<Rightarrow> error + bool" where
  "result_lt a b =
     (case result_float a of Inl e \<Rightarrow> Inl e
      | Inr x \<Rightarrow> (case result_float b of Inl e \<Rightarrow> Inl e | Inr y \<Rightarrow> Inr (x < y)))"

definition result_gt :: "result \<Rightarrow> result \<Rightarrow> error + bool" where
  "result_gt a b =
     (case result_float a of Inl e \<Rightarrow> Inl e
      | Inr x \<Rightarrow> (case result_float b of Inl e \<Rightarrow> Inl e | Inr y \<Rightarrow> Inr (x > y)))"

definition result_le :: "result \<Rightarrow> result \<Rightarrow> error + bool" where
  "result_le a b =
     (case result_float a of Inl e \<Rightarrow> Inl e
      | Inr x \<Rightarrow> (case result_float b of Inl e \<Rightarrow> Inl e | Inr y \<Rightarrow> Inr (x \<le> y)))"

definition result_ge :: "result \<Rightarrow> result \<Rightarrow> error + bool" where
  "result_ge a b =
     (case result_float a of Inl e \<Rightarrow> Inl e
      | Inr x \<Rightarrow> (case result_float b of Inl e \<Rightarrow> Inl e | Inr y \<Rightarrow> Inr (x \<ge> y)))"

text \<open>\<^verbatim>\<open>cmp <= 0\<close> as \<^verbatim>\<open>bar\<close> writes it: \<^verbatim>\<open>__le__\<close> with a plain number on the right.\<close>

definition result_le_num :: "result \<Rightarrow> real \<Rightarrow> error + bool" where
  "result_le_num a y = (case result_float a of Inl e \<Rightarrow> Inl e | Inr x \<Rightarrow> Inr (x \<le> y))"

text \<open>\<^verbatim>\<open>Result.__truediv__\<close>: \<^verbatim>\<open>float(self) / float(other)\<close>.\<close>

definition result_truediv :: "result \<Rightarrow> result \<Rightarrow> error + real" where
  "result_truediv a b =
     (case result_float a of Inl e \<Rightarrow> Inl e
      | Inr x \<Rightarrow> (case result_float b of Inl e \<Rightarrow> Inl e | Inr y \<Rightarrow> float_truediv x y))"

text \<open>\<^verbatim>\<open>a == b\<close> and \<^verbatim>\<open>a is b\<close> on two Results: the default, identity.\<close>

definition result_eq :: "result \<Rightarrow> result \<Rightarrow> bool" where
  "result_eq a b = (result_id a = result_id b)"

text \<open>
  The built-in \<^verbatim>\<open>sorted\<close> on a list of Results: a stable sort that compares with
  \<^verbatim>\<open>__lt__\<close> only; an exception of a comparison ends it. Each element is put behind the
  elements it is not less than.
\<close>

fun insert_sorted :: "result \<Rightarrow> result list \<Rightarrow> error + result list" where
  "insert_sorted x [] = Inr [x]"
| "insert_sorted x (y # ys) =
     (case result_lt x y of
        Inl e \<Rightarrow> Inl e
      | Inr smaller \<Rightarrow>
          if smaller then Inr (x # y # ys)
          else (case insert_sorted x ys of Inl e \<Rightarrow> Inl e | Inr zs \<Rightarrow> Inr (y # zs)))"

fun sorted_from :: "result list \<Rightarrow> result list \<Rightarrow> error + result list" where
  "sorted_from acc [] = Inr acc"
| "sorted_from acc (x # xs) =
     (case insert_sorted x acc of Inl e \<Rightarrow> Inl e | Inr acc' \<Rightarrow> sorted_from acc' xs)"

definition py_sorted :: "result list \<Rightarrow> error + result list" where
  "py_sorted xs = sorted_from [] xs"

section \<open>The world: what the program mutates\<close>

text \<open>
  \<open>Invoked\<close> records an invocation of a wrapper (its identity and arguments),
  \<open>TimerCreated\<close> the construction of a Clock Accumulator, \<open>Resumed\<close> and \<open>Released\<close>
  the opening and closing of a measurement window, with the accumulator's total at that
  moment, \<open>Printed\<close> the \<^verbatim>\<open>print(result)\<close> of a verbose \<^verbatim>\<open>measure\<close>.
\<close>

datatype event =
    Invoked nat "pyval list" kwargs
  | TimerCreated
  | Resumed real
  | Released real
  | Printed nat

text \<open>
  \<open>next_id\<close> is the next fresh object identity, \<open>calls\<close> counts the invocations so far,
  \<open>recursion_limit\<close> is the number of frames the interpreter has left for \<^verbatim>\<open>sane\<close>,
  \<open>results_of w rid cid\<close> is the entry of Orchestrator \<open>cid\<close> in the \<^verbatim>\<open>__results__\<close> mapping
  of wrapper \<open>rid\<close>, \<open>measured w cid\<close> holds the elements of the set \<^verbatim>\<open>_measured\<close> of
  Orchestrator \<open>cid\<close>, and \<open>trace\<close> is the history of events.
\<close>

record world =
  next_id :: nat
  calls :: nat
  recursion_limit :: nat
  results_of :: "nat \<Rightarrow> nat \<Rightarrow> result option"
  measured :: "nat \<Rightarrow> result list"
  trace :: "event list"

text \<open>
  Modelled from the spec: the Clock Accumulator (\<^verbatim>\<open>Timer\<close> of \<^verbatim>\<open>time_me/timer.py\<close>, which is
  not among the sources). Its state is the cumulative elapsed duration, zero when it is
  created; a resume window adds the time that elapsed while it was open; comparing the
  accumulator with a number compares the running total; its coercion to a number is the
  total.
\<close>

record timer =
  total :: real

definition Timer :: timer where
  "Timer = \<lparr>total = 0\<rparr>"

definition timer_lt :: "timer \<Rightarrow> real \<Rightarrow> bool" where
  "timer_lt t x = (total t < x)"

definition timer_add :: "timer \<Rightarrow> real \<Rightarrow> timer" where
  "timer_add t elapsed = t\<lparr>total := total t + elapsed\<rparr>"

section \<open>Invoking a wrapper\<close>

text \<open>\<^verbatim>\<open>*a\<close> unpacks any iterable, \<^verbatim>\<open>**k\<close> a mapping whose keys are strings.\<close>

definition star_args :: "pyval \<Rightarrow> error + pyval list" where
  "star_args a = (case py_iter a of None \<Rightarrow> Inl (TypeError a) | Some xs \<Rightarrow> Inr xs)"

fun kw_of :: "(pyval \<times> pyval) list \<Rightarrow> error + kwargs" where
  "kw_of [] = Inr []"
| "kw_of ((PStr s, v) # rest) =
     (case kw_of rest of Inl e \<Rightarrow> Inl e | Inr ks \<Rightarrow> Inr ((s, v) # ks))"
| "kw_of ((k, v) # rest) = Inl (TypeError k)"

fun star_kwargs :: "pyval \<Rightarrow> error + kwargs" where
  "star_kwargs (PDict d) = kw_of d"
| "star_kwargs k = Inl (TypeError k)"

text \<open>\<^verbatim>\<open>runner(*a, **k)\<close>: the arguments are unpacked, then the target runs.\<close>

definition invoke :: "runner \<Rightarrow> pyval \<Rightarrow> pyval \<Rightarrow> world \<Rightarrow> ((error + pyval) \<times> real) \<times> world" where
  "invoke r a k w =
     (case star_args a of
        Inl e \<Rightarrow> ((Inl e, 0), w)
      | Inr xs \<Rightarrow>
          (case star_kwargs k of
             Inl e \<Rightarrow> ((Inl e, 0), w)
           | Inr ks \<Rightarrow>
               (target r (calls w) xs ks,
                w\<lparr>calls := Suc (calls w), trace := trace w @ [Invoked (runner_id r) xs ks]\<rparr>)))"

section \<open>The Orchestrator\<close>

text \<open>
  The three classes differ in \<^verbatim>\<open>iter_argsets\<close> only: \<open>Coach\<close> is the base class,
  \<open>TimeLimitCoach time_limit\<close> and \<open>ArgCoach n argsets\<close> the two subclasses.
\<close>

datatype policy = Coach | TimeLimitCoach real | ArgCoach int "pyval list"

record coach =
  coach_id :: nat
  sanity_argsets :: "(pyval \<times> pyval) list"
  sanity_tol :: real
  verbose :: bool
  policy :: policy

text \<open>
  The sanity loop of \<^verbatim>\<open>Coach.__call__\<close> over \<^verbatim>\<open>self._sanity_argsets.items()\<close>: normalise the
  fixture's argument set, invoke the wrapper, compare; the first fixture that is not sane
  raises \<^verbatim>\<open>ValueError(f'{expected} vs {actual}')\<close>. \<open>None\<close> means every fixture passed.
\<close>

fun sanity_check :: "coach \<Rightarrow> runner \<Rightarrow> (pyval \<times> pyval) list \<Rightarrow> world \<Rightarrow> error option \<times> world" where
  "sanity_check c r [] w = (None, w)"
| "sanity_check c r ((sa, expected) # rest) w =
     (case parse_argset sa of
        Inl e \<Rightarrow> (Some e, w)
      | Inr (a, k) \<Rightarrow>
          (case invoke r a k w of
             ((Inl e, elapsed), w') \<Rightarrow> (Some e, w')
           | ((Inr actual, elapsed), w') \<Rightarrow>
               (case sane (recursion_limit w') (sanity_tol c) expected actual of
                  Inl e \<Rightarrow> (Some e, w')
                | Inr ok \<Rightarrow>
                    if ok then sanity_check c r rest w'
                    else (Some (ValueError_vs expected actual), w'))))"

text \<open>
  The body of the measurement loop: \<^verbatim>\<open>a, k = argset\<close>, the call inside
  \<^verbatim>\<open>with timer.resume()\<close>, then \<^verbatim>\<open>n += 1\<close>. The window closes on every exit path.
\<close>

definition timed_call ::
  "runner \<Rightarrow> pyval \<times> pyval \<Rightarrow> timer \<Rightarrow> nat \<Rightarrow> world \<Rightarrow> (error + timer \<times> nat) \<times> world" where
  "timed_call r argset t n w =
     (case invoke r (fst argset) (snd argset) (w\<lparr>trace := trace w @ [Resumed (total t)]\<rparr>) of
        ((res, elapsed), w') \<Rightarrow>
          (let t' = timer_add t elapsed;
               w'' = w'\<lparr>trace := trace w' @ [Released (total t')]\<rparr>
           in case res of
                Inl e \<Rightarrow> (Inl e, w'')
              | Inr v \<Rightarrow> (Inr (t', Suc n), w'')))"

text \<open>
  \<^verbatim>\<open>for argset in self.iter_argsets(timer): ...\<close> for each of the three generators. A
  generator runs between two iterations of the loop that consumes it, so each is written
  as the loop it drives. \<^verbatim>\<open>Coach.iter_argsets\<close> yields the empty argument set once.
\<close>

definition base_run :: "runner \<Rightarrow> timer \<Rightarrow> nat \<Rightarrow> world \<Rightarrow> (error + timer \<times> nat) \<times> world" where
  "base_run r t n w = timed_call r (PTuple [], PDict []) t n w"

text \<open>
  \<^verbatim>\<open>TimeLimitCoach.iter_argsets\<close>: \<^verbatim>\<open>while timer < self.time_limit\<close>, yield what the base
  class yields. The loop need not end; \<open>None\<close> is a run that never returns.
\<close>

partial_function (option) time_run ::
  "real \<Rightarrow> runner \<Rightarrow> timer \<Rightarrow> nat \<Rightarrow> world \<Rightarrow> ((error + timer \<times> nat) \<times> world) option" where
  "time_run time_limit r t n w =
     (if timer_lt t time_limit
      then (case base_run r t n w of
              (Inl e, w') \<Rightarrow> Some (Inl e, w')
            | (Inr (t', n'), w') \<Rightarrow> time_run time_limit r t' n' w')
      else Some (Inr (t, n), w))"

text \<open>
  \<^verbatim>\<open>ArgCoach.iter_argsets\<close>: \<^verbatim>\<open>for _ in range(self.n): for argset in self.argsets: yield
  parse_argset(argset)\<close>. \<open>arg_pass\<close> is the inner loop, \<open>arg_run\<close> the outer one.
\<close>

fun arg_pass :: "runner \<Rightarrow> pyval list \<Rightarrow> timer \<Rightarrow> nat \<Rightarrow> world \<Rightarrow> (error + timer \<times> nat) \<times> world" where
  "arg_pass r [] t n w = (Inr (t, n), w)"
| "arg_pass r (argset # rest) t n w =
     (case parse_argset argset of
        Inl e \<Rightarrow> (Inl e, w)
      | Inr ak \<Rightarrow>
          (case timed_call r ak t n w of
             (Inl e, w') \<Rightarrow> (Inl e, w')
           | (Inr (t', n'), w') \<Rightarrow> arg_pass r rest t' n' w'))"

fun arg_run :: "nat \<Rightarrow> runner \<Rightarrow> pyval list \<Rightarrow> timer \<Rightarrow> nat \<Rightarrow> world \<Rightarrow> (error + timer \<times> nat) \<times> world" where
  "arg_run 0 r argsets t n w = (Inr (t, n), w)"
| "arg_run (Suc m) r argsets t n w =
     (case arg_pass r argsets t n w of
        (Inl e, w') \<Rightarrow> (Inl e, w')
      | (Inr (t', n'), w') \<Rightarrow> arg_run m r argsets t' n' w')"

text \<open>\<^verbatim>\<open>range(self.n)\<close> is empty for a negative \<^verbatim>\<open>n\<close>.\<close>

definition iter_argsets_run ::
  "policy \<Rightarrow> runner \<Rightarrow> timer \<Rightarrow> nat \<Rightarrow> world \<Rightarrow> ((error + timer \<times> nat) \<times> world) option" where
  "iter_argsets_run p r t n w =
     (case p of
        Coach \<Rightarrow> Some (base_run r t n w)
      | TimeLimitCoach time_limit \<Rightarrow> time_run time_limit r t n w
      | ArgCoach m argsets \<Rightarrow> Some (arg_run (nat m) r argsets t n w))"

text \<open>
  What may be handed to an Orchestrator: a wrapper, a plain callable (its description and
  its behaviour), an Outcome, or some other value.
\<close>

datatype cand = Wrapped runner | Callable pyval behaviour | Outcome result | Value pyval

text \<open>
  Modelled from the spec: \<^verbatim>\<open>runner\<close> of \<^verbatim>\<open>time_me/runner.py\<close> (imported as \<^verbatim>\<open>to_runner\<close>), which
  is not among the sources. A plain callable gets a new wrapper whose name is the
  description of the callable; a value that is neither callable nor a trial is a type
  error.
\<close>

definition to_runner :: "cand \<Rightarrow> world \<Rightarrow> (error + runner) \<times> world" where
  "to_runner x w =
     (case x of
        Wrapped r \<Rightarrow> (Inr r, w)
      | Callable name f \<Rightarrow>
          (Inr (Runner (next_id w) name f), w\<lparr>next_id := Suc (next_id w)\<rparr>)
      | Outcome res \<Rightarrow> (Inl (TypeError (PObj (result_id res))), w)
      | Value v \<Rightarrow> (Inl (TypeError v), w))"

text \<open>
  Modelled from the spec: \<^verbatim>\<open>Runner.assign_result\<close> of \<^verbatim>\<open>time_me/runner.py\<close>, which is not
  among the sources. The wrapper stores the Outcome under the Orchestrator's identity.
\<close>

definition assign_result :: "runner \<Rightarrow> coach \<Rightarrow> result \<Rightarrow> world \<Rightarrow> world" where
  "assign_result r c ret w =
     w\<lparr>results_of := (results_of w)
          (runner_id r := (results_of w (runner_id r))(coach_id c \<mapsto> ret))\<rparr>"

text \<open>\<^verbatim>\<open>self._measured.add(ret)\<close>: a set of objects hashed and compared by identity.\<close>

definition measured_add :: "coach \<Rightarrow> result \<Rightarrow> world \<Rightarrow> world" where
  "measured_add c ret w =
     (if list_ex (result_eq ret) (measured w (coach_id c)) then w
      else w\<lparr>measured := (measured w)(coach_id c := measured w (coach_id c) @ [ret])\<rparr>)"

text \<open>
  \<^verbatim>\<open>Coach.__call__\<close>: wrap the candidate if it is not a wrapper, check the fixtures, create
  the timer, run the measurement loop of the policy, build the Outcome from the timer's
  total and the call count, attach it to the wrapper and add it to the measured set.
\<close>

definition coach_call :: "coach \<Rightarrow> cand \<Rightarrow> world \<Rightarrow> ((error + result) \<times> world) option" where
  "coach_call c x w =
     (case (case x of Wrapped r \<Rightarrow> (Inr r, w) | _ \<Rightarrow> to_runner x w) of
        (Inl e, w0) \<Rightarrow> Some (Inl e, w0)
      | (Inr r, w0) \<Rightarrow>
          (case sanity_check c r (sanity_argsets c) w0 of
             (Some e, w1) \<Rightarrow> Some (Inl e, w1)
           | (None, w1) \<Rightarrow>
               (case iter_argsets_run (policy c) r Timer 0
                       (w1\<lparr>trace := trace w1 @ [TimerCreated]\<rparr>) of
                  None \<Rightarrow> None
                | Some (Inl e, w2) \<Rightarrow> Some (Inl e, w2)
                | Some (Inr (t, n), w2) \<Rightarrow>
                    (let ret = Result (next_id w2) r (total t) (int n)
                     in Some (Inr ret,
                          measured_add c ret
                            (assign_result r c ret (w2\<lparr>next_id := Suc (next_id w2)\<rparr>)))))))"

text \<open>\<^verbatim>\<open>Coach.measure\<close>: run the candidate, print the Outcome when verbose, return the candidate.\<close>

definition coach_measure :: "coach \<Rightarrow> cand \<Rightarrow> world \<Rightarrow> ((error + cand) \<times> world) option" where
  "coach_measure c obj w =
     (case coach_call c obj w of
        None \<Rightarrow> None
      | Some (Inl e, w') \<Rightarrow> Some (Inl e, w')
      | Some (Inr res, w') \<Rightarrow>
          Some (Inr obj,
            if verbose c then w'\<lparr>trace := trace w' @ [Printed (result_id res)]\<rparr> else w'))"

text \<open>
  \<^verbatim>\<open>getattr(o, '__results__', None)\<close> followed by \<^verbatim>\<open>self in res_dict\<close>: only a wrapper
  carries the mapping.
\<close>

definition cached :: "coach \<Rightarrow> cand \<Rightarrow> world \<Rightarrow> result option" where
  "cached c x w = (case x of Wrapped r \<Rightarrow> results_of w (runner_id r) (coach_id c) | _ \<Rightarrow> None)"

text \<open>The \<^verbatim>\<open>for o in objs\<close> loop of \<^verbatim>\<open>Coach.compare\<close>, \<open>results\<close> being the list built so far.\<close>

fun compare_collect ::
  "coach \<Rightarrow> cand list \<Rightarrow> result list \<Rightarrow> world \<Rightarrow> ((error + result list) \<times> world) option" where
  "compare_collect c [] results w = Some (Inr results, w)"
| "compare_collect c (x # objs) results w =
     (case x of
        Outcome res \<Rightarrow> compare_collect c objs (results @ [res]) w
      | _ \<Rightarrow>
          (case cached c x w of
             Some res \<Rightarrow> compare_collect c objs (results @ [res]) w
           | None \<Rightarrow>
               (case coach_call c x w of
                  None \<Rightarrow> None
                | Some (Inl e, w') \<Rightarrow> Some (Inl e, w')
                | Some (Inr res, w') \<Rightarrow> compare_collect c objs (results @ [res]) w')))"

text \<open>
  \<^verbatim>\<open>Coach.compare(*objs)\<close>. With no arguments the measured set is iterated; the order in
  which a set yields its elements is not fixed by the language, so it is the parameter
  \<open>set_order\<close>. The value is the source list of the \<^verbatim>\<open>ResultComparison\<close>.
\<close>

definition compare ::
  "coach \<Rightarrow> (result list \<Rightarrow> result list) \<Rightarrow> cand list \<Rightarrow> world
     \<Rightarrow> ((error + result list) \<times> world) option" where
  "compare c set_order objs w =
     (case compare_collect c
             (if List.null objs then map Outcome (set_order (measured w (coach_id c))) else objs) [] w of
        None \<Rightarrow> None
      | Some (Inl e, w') \<Rightarrow> Some (Inl e, w')
      | Some (Inr results, w') \<Rightarrow>
          (case py_sorted results of
             Inl e \<Rightarrow> Some (Inl e, w')
           | Inr source \<Rightarrow> Some (Inr source, w')))"

section \<open>Trials\<close>

text \<open>The subject of a trial is named by a positional index or by a keyword.\<close>

datatype obj_key = Index int | Key string

text \<open>Truth value of a Python value, as \<^verbatim>\<open>if __name__:\<close> tests it.\<close>

fun py_bool :: "pyval \<Rightarrow> bool" where
  "py_bool PNone = False"
| "py_bool (PBool b) = b"
| "py_bool (PInt i) = (i \<noteq> 0)"
| "py_bool (PFloat x) = (x \<noteq> 0)"
| "py_bool (PStr s) = (s \<noteq> [])"
| "py_bool (PTuple xs) = (xs \<noteq> [])"
| "py_bool (PList xs) = (xs \<noteq> [])"
| "py_bool (PDict d) = (d \<noteq> [])"
| "py_bool (PItems d) = (d \<noteq> [])"
| "py_bool (PObj i) = True"

text \<open>\<^verbatim>\<open>args[obj_key]\<close>: a negative index counts from the end, an index outside raises.\<close>

definition subscript :: "pyval list \<Rightarrow> int \<Rightarrow> error + pyval" where
  "subscript args i =
     (if 0 \<le> i \<and> i < int (length args) then Inr (args ! nat i)
      else if i < 0 \<and> - int (length args) \<le> i then Inr (args ! nat (int (length args) + i))
      else Inl IndexError)"

text \<open>
  Modelled from the spec: \<^verbatim>\<open>ObjectRunner(obj, func, args, kwargs)\<close> of \<^verbatim>\<open>time_me/runner.py\<close>,
  which is not among the sources. The wrapper is bound to the subject; calling it invokes
  the trial function with the captured arguments (the subject among them) and then the
  arguments of the call site. Its name is the description of the subject.
\<close>

definition ObjectRunner :: "pyval \<Rightarrow> behaviour \<Rightarrow> pyval list \<Rightarrow> kwargs \<Rightarrow> nat \<Rightarrow> runner" where
  "ObjectRunner obj func args kwargs ident =
     Runner ident obj (\<lambda>k a kw. func k (args @ a) (kwargs @ kw))"

text \<open>
  The function that \<^verbatim>\<open>Coach.trial(obj_key)(func)\<close> returns, called with positional
  arguments \<open>args\<close> and keyword arguments \<open>kws\<close>: the keyword \<^verbatim>\<open>__name__\<close> is a parameter of
  its own (default \<^verbatim>\<open>None\<close>), every other keyword goes to \<^verbatim>\<open>kwargs\<close>.
\<close>

definition trial ::
  "coach \<Rightarrow> obj_key \<Rightarrow> behaviour \<Rightarrow> pyval list \<Rightarrow> kwargs \<Rightarrow> world
     \<Rightarrow> ((error + result) \<times> world) option" where
  "trial c key func args kws w =
     (let name = (case map_of kws ''__name__'' of None \<Rightarrow> PNone | Some v \<Rightarrow> v);
          kwargs = filter (\<lambda>kv. fst kv \<noteq> ''__name__'') kws
      in case (case key of
                 Index i \<Rightarrow>
                   if int (length args) \<le> i then Inl (ValueError_positional i)
                   else subscript args i
               | Key k \<Rightarrow>
                   (case map_of kwargs k of
                      None \<Rightarrow> Inl (ValueError_keyword k)
                    | Some v \<Rightarrow> Inr v)) of
           Inl e \<Rightarrow> Some (Inl e, w)
         | Inr obj \<Rightarrow>
             (let r = ObjectRunner obj func args kwargs (next_id w)
              in coach_call c
                   (Wrapped (if py_bool name then r\<lparr>runner_name := name\<rparr> else r))
                   (w\<lparr>next_id := Suc (next_id w)\<rparr>)))"

section \<open>The bar chart\<close>

text \<open>
  The inner loop body of \<^verbatim>\<open>ResultComparison.bar\<close> for one reference \<open>cmp\<close> that is a Result
  (a Result is always true, so \<^verbatim>\<open>not cmp\<close> is false): skipped when \<^verbatim>\<open>cmp <= 0\<close> or
  \<^verbatim>\<open>cmp == result\<close>, otherwise the line shows \<^verbatim>\<open>result / cmp\<close> and the name of \<open>cmp\<close>'s wrapper.
\<close>

definition annotate :: "result \<Rightarrow> result \<Rightarrow> error + (real \<times> pyval) list" where
  "annotate res cmp =
     (case result_le_num cmp 0 of
        Inl e \<Rightarrow> Inl e
      | Inr nonpositive \<Rightarrow>
          if nonpositive \<or> result_eq cmp res then Inr []
          else (case result_truediv res cmp of
                  Inl e \<Rightarrow> Inl e
                | Inr ratio \<Rightarrow> Inr [(ratio, runner_name (runner_of cmp))]))"

text \<open>
  The loop \<^verbatim>\<open>for i, result in enumerate(self)\<close> with \<^verbatim>\<open>comparisons = [first, prev]\<close>
  (\<open>prev\<close> is \<^verbatim>\<open>None\<close> at the start). Each bar gets its height and its annotation lines;
  a result that is in neither slot (by identity) replaces the last slot.
\<close>

fun bar_loop :: "result \<Rightarrow> result option \<Rightarrow> result list \<Rightarrow> error + (real \<times> (real \<times> pyval) list) list" where
  "bar_loop first prev [] = Inr []"
| "bar_loop first prev (res # rest) =
     (case result_float res of
        Inl e \<Rightarrow> Inl e
      | Inr height \<Rightarrow>
          (case annotate res first of
             Inl e \<Rightarrow> Inl e
           | Inr msg1 \<Rightarrow>
               (case (case prev of None \<Rightarrow> Inr [] | Some cmp \<Rightarrow> annotate res cmp) of
                  Inl e \<Rightarrow> Inl e
                | Inr msg2 \<Rightarrow>
                    (case bar_loop first
                            (if result_eq first res
                                \<or> (case prev of None \<Rightarrow> False | Some cmp \<Rightarrow> result_eq cmp res)
                             then prev else Some res) rest of
                       Inl e \<Rightarrow> Inl e
                     | Inr texts \<Rightarrow> Inr ((height, msg1 @ msg2) # texts)))))"

text \<open>\<^verbatim>\<open>[float(r) for r in self]\<close>, the heights handed to \<^verbatim>\<open>plt.bar\<close>.\<close>

fun heights :: "result list \<Rightarrow> error + real list" where
  "heights [] = Inr []"
| "heights (r # rs) =
     (case result_float r of
        Inl e \<Rightarrow> Inl e
      | Inr h \<Rightarrow> (case heights rs of Inl e \<Rightarrow> Inl e | Inr hs \<Rightarrow> Inr (h # hs)))"

text \<open>
  \<^verbatim>\<open>ResultComparison.bar\<close>: the heights are computed first, then \<^verbatim>\<open>self[0]\<close> is read
  (an empty comparison raises), then the annotations are placed. The drawing itself is
  the plotting library's; the value is what is handed to it for each bar.
\<close>

definition bar :: "result list \<Rightarrow> error + (real \<times> (real \<times> pyval) list) list" where
  "bar source =
     (case heights source of
        Inl e \<Rightarrow> Inl e
      | Inr hs \<Rightarrow>
          (case source of
             [] \<Rightarrow> Inl IndexError
           | first # rest \<Rightarrow> bar_loop first None source))"

section \<open>Observations and example inputs\<close>

text \<open>The events of a Clock Accumulator: its creation and the windows it opens and closes.\<close>

fun is_timer_event :: "event \<Rightarrow> bool" where
  "is_timer_event TimerCreated = True"
| "is_timer_event (Resumed t) = True"
| "is_timer_event (Released t) = True"
| "is_timer_event _ = False"

fun is_Invoked :: "event \<Rightarrow> bool" where
  "is_Invoked (Invoked rid xs ks) = True"
| "is_Invoked _ = False"

fun is_Resumed :: "event \<Rightarrow> bool" where
  "is_Resumed (Resumed t) = True"
| "is_Resumed _ = False"

text \<open>
  Following the spec's words: the named values of a keys-unique mapping, its keys being
  the names.
\<close>

fun spec_keywords :: "(pyval \<times> pyval) list \<Rightarrow> kwargs option" where
  "spec_keywords [] = Some []"
| "spec_keywords ((k, v) # rest) =
     (case k of
        PStr s \<Rightarrow> map_option (Cons (s, v)) (spec_keywords rest)
      | _ \<Rightarrow> None)"

text \<open>
  Following the spec's words: the canonical pair that a shorthand Argument Set stands for.
  An explicit (sequence, mapping) pair stands for itself, a bare ordered sequence is
  positional-only, a bare keys-unique mapping is keyword-only; any other value is
  malformed.
\<close>

fun spec_arguments :: "pyval \<Rightarrow> (pyval list \<times> kwargs) option" where
  "spec_arguments (PTuple [PTuple xs, PDict d]) = map_option (Pair xs) (spec_keywords d)"
| "spec_arguments (PTuple xs) = Some (xs, [])"
| "spec_arguments (PList xs) = Some (xs, [])"
| "spec_arguments (PStr s) = Some (map (\<lambda>c. PStr [c]) s, [])"
| "spec_arguments (PDict d) = map_option (Pair []) (spec_keywords d)"
| "spec_arguments _ = None"

text \<open>The mean per-call duration of an Outcome whose call count is not zero.\<close>

definition mean :: "result \<Rightarrow> real" where
  "mean r = total_time r / of_int (n_of r)"

text \<open>A callable that ignores its arguments, returns \<open>v\<close> and takes \<open>elapsed\<close> seconds.\<close>

definition returns :: "pyval \<Rightarrow> real \<Rightarrow> behaviour" where
  "returns v elapsed = (\<lambda>k xs ks. (Inr v, elapsed))"

text \<open>The world when the program starts, with the interpreter's default recursion limit.\<close>

definition fresh_world :: world where
  "fresh_world = \<lparr>next_id = 0, calls = 0, recursion_limit = 1000,
     results_of = (\<lambda>rid cid. None), measured = (\<lambda>cid. []), trace = []\<rparr>"

text \<open>\<^verbatim>\<open>Coach.__init__\<close> with its defaults for the tolerance (\<open>1e-7\<close>) and the verbosity.\<close>

definition new_coach :: "nat \<Rightarrow> (pyval \<times> pyval) list \<Rightarrow> policy \<Rightarrow> coach" where
  "new_coach ident fixtures p =
     \<lparr>coach_id = ident, sanity_argsets = fixtures, sanity_tol = 1 / 10 ^ 7, verbose = False,
      policy = p\<rparr>"

section \<open>Properties\<close>

subsection \<open>Argument-set normalisation\<close>

text \<open>
  Claim C1 says that a bare mapping \<open>m\<close> given as an Argument Set is normalised to the
  pair \<open>((), m)\<close>, so that \<open>m\<close> is passed as keyword arguments, and that a value of
  none of the accepted shapes raises a type error. In the code every dict is also an
  Iterable, and the Iterable branch comes first: a bare dict \<open>d\<close> is returned as
  \<open>(d, {})\<close>, its keys become positional arguments, and the Mapping branch is never
  reached. An explicit pair is returned as it is, and a value that is not iterable
  raises \<^verbatim>\<open>TypeError\<close>.
\<close>

theorem parse_argset_bare_mapping:
  "parse_argset (PDict d) = Inr (PDict d, PDict [])
   \<and> parse_argset (PDict [(PStr ''x'', PInt 1)]) \<noteq> Inr (PTuple [], PDict [(PStr ''x'', PInt 1)])
   \<and> parse_argset (PTuple [PTuple [PInt 1], PDict [(PStr ''x'', PInt 2)]])
       = Inr (PTuple [PInt 1], PDict [(PStr ''x'', PInt 2)])
   \<and> parse_argset (PInt 5) = Inl (TypeError (PInt 5))
   \<and> parse_argset PNone = Inl (TypeError PNone)"
  by (simp add: parse_argset_def is_Iterable_def)

subsection \<open>The sanity comparison\<close>

lemma py_eq_numbers:
  "float_of e = Some x \<Longrightarrow> float_of a = Some y \<Longrightarrow> py_eq e a = (x = y)"
  by (cases e) auto

lemma number_not_container:
  "float_of a = Some y \<Longrightarrow> \<not> is_Mapping a \<and> \<not> is_Iterable a"
  by (cases a) (auto simp: is_Iterable_def)

text \<open>On two numbers \<^verbatim>\<open>sane\<close> is equality or \<^verbatim>\<open>isclose\<close>, and nothing else.\<close>

lemma sane_on_numbers:
  assumes "float_of e = Some x" and "float_of a = Some y"
  shows "sane (Suc d) tol e a =
     (if x = y then Inr True
      else if tol < 0 then Inl ValueError_tolerances
      else Inr (\<bar>x - y\<bar> \<le> rel_tol * \<bar>x\<bar> \<or> \<bar>x - y\<bar> \<le> rel_tol * \<bar>y\<bar> \<or> \<bar>x - y\<bar> \<le> tol))"
proof -
  have eq: "py_eq e a = (x = y)"
    using assms by (rule py_eq_numbers)
  have nc: "\<not> is_Mapping a" "\<not> is_Iterable a"
    using number_not_container [OF assms(2)] by simp_all
  have num: "is_number a" "is_number e"
    using assms by (simp_all add: is_number_def)
  have "0 \<le> rel_tol"
    by (simp add: rel_tol_def)
  then have "\<bar>rel_tol * x\<bar> = rel_tol * \<bar>x\<bar>" "\<bar>rel_tol * y\<bar> = rel_tol * \<bar>y\<bar>"
    by (simp_all add: abs_mult)
  with assms eq nc num show ?thesis
    by (auto simp: isclose_def)
qed

text \<open>
  Claim C8, first half: two numeric values whose absolute difference is at most the
  configured tolerance are sane, and two that differ by more than the tolerance and by
  more than the relative tolerance of \<^verbatim>\<open>isclose\<close> (\<open>1e-9\<close> of either magnitude) are not.
  Second half, as amended: \<open>sane(1.0, 1.0 + tol/2)\<close> is true for every tolerance
  \<open>tol \<ge> 0\<close>, and \<open>sane(1.0, 1.0 + tol*10)\<close> is false when \<open>10 * tol\<close> exceeds
  \<open>1e-9 * (1 + 10 * tol)\<close>, which the default tolerance \<open>1e-7\<close> does, and true for
  a tolerance \<open>tol \<ge> 0\<close> below that.
\<close>

theorem sane_numeric_tolerance:
  assumes "float_of e = Some x" and "float_of a = Some y"
  shows "(\<bar>x - y\<bar> \<le> tol \<longrightarrow> sane (Suc d) tol e a = Inr True)
       \<and> (0 \<le> tol \<and> tol < \<bar>x - y\<bar> \<and> rel_tol * \<bar>x\<bar> < \<bar>x - y\<bar> \<and> rel_tol * \<bar>y\<bar> < \<bar>x - y\<bar>
            \<longrightarrow> sane (Suc d) tol e a = Inr False)
       \<and> (0 \<le> tol \<longrightarrow> sane (Suc d) tol (PFloat 1) (PFloat (1 + tol / 2)) = Inr True)
       \<and> (rel_tol * (1 + tol * 10) < tol * 10
            \<longrightarrow> sane (Suc d) tol (PFloat 1) (PFloat (1 + tol * 10)) = Inr False)
       \<and> (0 \<le> tol \<and> tol * 10 \<le> rel_tol * (1 + tol * 10)
            \<longrightarrow> sane (Suc d) tol (PFloat 1) (PFloat (1 + tol * 10)) = Inr True)"
proof -
  have general: "\<bar>x - y\<bar> \<le> tol \<longrightarrow> sane (Suc d) tol e a = Inr True"
    by (auto simp add: sane_on_numbers [OF assms] simp del: sane.simps)
  have apart: "0 \<le> tol \<and> tol < \<bar>x - y\<bar> \<and> rel_tol * \<bar>x\<bar> < \<bar>x - y\<bar> \<and> rel_tol * \<bar>y\<bar> < \<bar>x - y\<bar>
      \<longrightarrow> sane (Suc d) tol e a = Inr False"
    by (auto simp add: sane_on_numbers [OF assms] simp del: sane.simps)
  have half: "0 \<le> tol \<longrightarrow> sane (Suc d) tol (PFloat 1) (PFloat (1 + tol / 2)) = Inr True"
    by (subst sane_on_numbers [of _ 1 _ "1 + tol / 2"]) auto
  have pos: "0 < tol" if "rel_tol * (1 + tol * 10) < tol * 10"
  proof (rule ccontr)
    assume "\<not> 0 < tol"
    then have "tol * 10 \<le> rel_tol * (tol * 10)"
      by (simp add: rel_tol_def)
    moreover have "0 < rel_tol"
      by (simp add: rel_tol_def)
    ultimately show False
      using that by (simp add: algebra_simps)
  qed
  have tenfold: "rel_tol * (1 + tol * 10) < tol * 10
      \<longrightarrow> sane (Suc d) tol (PFloat 1) (PFloat (1 + tol * 10)) = Inr False"
  proof
    assume far: "rel_tol * (1 + tol * 10) < tol * 10"
    from pos [OF far] have "0 < tol" .
    moreover have "rel_tol < tol * 10"
      using far \<open>0 < tol\<close> by (simp add: rel_tol_def algebra_simps)
    ultimately show "sane (Suc d) tol (PFloat 1) (PFloat (1 + tol * 10)) = Inr False"
      using far by (subst sane_on_numbers [of _ 1 _ "1 + tol * 10"]) auto
  qed
  have within: "0 \<le> tol \<and> tol * 10 \<le> rel_tol * (1 + tol * 10)
      \<longrightarrow> sane (Suc d) tol (PFloat 1) (PFloat (1 + tol * 10)) = Inr True"
    by (subst sane_on_numbers [of _ 1 _ "1 + tol * 10"]) auto
  from general apart half tenfold within show ?thesis
    by blast
qed

theorem sane_numeric_tolerance_witness:
  "sane 1000 (1 / 10 ^ 7) (PFloat 1) (PFloat (1 + 1 / 10 ^ 7 / 2)) = Inr True
   \<and> sane 1000 (1 / 10 ^ 7) (PFloat 1) (PFloat (1 + 1 / 10 ^ 7 * 10)) = Inr False"
proof -
  have n: "(1000::nat) = Suc 999"
    by simp
  have h1: "float_of (PFloat 1) = Some 1"
    by simp
  have a: "(0::real) \<le> 1 / 10 ^ 7"
    by simp
  have b: "rel_tol * (1 + 1 / 10 ^ 7 * 10) < 1 / 10 ^ 7 * 10"
    by (simp add: rel_tol_def)
  from sane_numeric_tolerance [OF h1 h1, of "1 / 10 ^ 7" 999] a b show ?thesis
    unfolding n by blast
qed

text \<open>
  Claim C8 as it is written fails for a small tolerance: with \<open>tol = 2^-40\<close> the values
  \<open>1.0\<close> and \<open>1.0 + tol*10\<close> lie within the relative tolerance of \<^verbatim>\<open>isclose\<close> and are sane.
\<close>

theorem sane_tenfold_tolerance_counterexample:
  "sane 1000 (1 / 2 ^ 40) (PFloat 1) (PFloat (1 + 1 / 2 ^ 40 * 10)) = Inr True"
proof -
  have n: "(1000::nat) = Suc 999"
    by simp
  show ?thesis
    unfolding n by (subst sane_on_numbers [of _ 1 _ "1 + 1 / 2 ^ 40 * 10"]) (simp_all add: rel_tol_def)
qed

text \<open>
  Claim C7 says that two iterables of the same kind that differ in an element are not
  sane, the check returning false. On strings the code does not return: a one-character
  string yields itself when iterated, so \<^verbatim>\<open>sane('b', 'c')\<close> calls itself with the same
  arguments until the interpreter raises \<^verbatim>\<open>RecursionError\<close>, whatever the number of frames.
  The two examples of the claim on lists and tuples hold.
\<close>

theorem sane_strings_never_false:
  "sane d tol (PStr ''b'') (PStr ''c'') = Inl RecursionError
   \<and> sane (Suc (Suc d)) tol (PList [PInt 1, PInt 2]) (PTuple [PInt 1, PInt 2]) = Inr False
   \<and> sane (Suc (Suc d)) tol (PList [PInt 1, PInt 2]) (PList [PInt 1, PInt 2]) = Inr True"
proof -
  have "sane d tol (PStr ''b'') (PStr ''c'') = Inl RecursionError"
    by (induction d) (simp_all add: is_number_def is_Iterable_def)
  then show ?thesis
    by (simp add: is_number_def is_Iterable_def)
qed

subsection \<open>Outcomes\<close>

lemma result_float_nonzero:
  "n_of r \<noteq> 0 \<Longrightarrow> result_float r = Inr (total_time r / of_int (n_of r))"
  by (simp add: result_float_def float_truediv_def)

text \<open>
  Claim C6: for two Outcomes with call counts of at least one, \<open>a < b\<close> holds exactly when
  the mean per-call duration of \<open>a\<close> (total time divided by call count) is less than that
  of \<open>b\<close>, and \<open>a / b\<close> is the quotient of the two means (Python's division, which raises
  on a zero divisor); with means 2.0 and 4.0, \<open>a < b\<close> is true and \<open>b / a\<close> is 2.0.
\<close>

theorem result_order_and_ratio:
  assumes "1 \<le> n_of a" and "1 \<le> n_of b"
  shows "result_lt a b = Inr (total_time a / of_int (n_of a) < total_time b / of_int (n_of b))
       \<and> result_truediv a b
           = float_truediv (total_time a / of_int (n_of a)) (total_time b / of_int (n_of b))
       \<and> (total_time a / of_int (n_of a) = 2 \<and> total_time b / of_int (n_of b) = 4
            \<longrightarrow> result_lt a b = Inr True \<and> result_truediv b a = Inr 2)"
  using assms
  by (simp add: result_lt_def result_truediv_def result_float_nonzero float_truediv_def)

theorem result_order_and_ratio_witness:
  "result_lt (Result 0 (Runner 0 (PStr ''f'') (returns PNone 2)) 6 3)
             (Result 1 (Runner 1 (PStr ''g'') (returns PNone 4)) 8 2) = Inr True
   \<and> result_truediv (Result 1 (Runner 1 (PStr ''g'') (returns PNone 4)) 8 2)
                    (Result 0 (Runner 0 (PStr ''f'') (returns PNone 2)) 6 3) = Inr 2"
  using result_order_and_ratio [of "Result 0 (Runner 0 (PStr ''f'') (returns PNone 2)) 6 3"
      "Result 1 (Runner 1 (PStr ''g'') (returns PNone 4)) 8 2"]
  by (simp add: Result_def)

text \<open>
  Claim C10: \<^verbatim>\<open>Coach.Result\<close> has ordering operators and no value equality. Two distinct
  Outcomes with the same mean satisfy \<open>a <= b\<close> and \<open>b <= a\<close> while \<open>a == b\<close> is false;
  the measured set keeps both; the bar chart does not skip the tie (the second bar is
  annotated with the ratio 1 against the first) and takes the tied Outcome as the new
  previous reference (a third tied Outcome is annotated against both).
\<close>

theorem outcome_equality_is_identity:
  assumes "result_id a \<noteq> result_id b"
    and "n_of a \<noteq> 0" and "n_of b \<noteq> 0"
    and "total_time a / of_int (n_of a) = m" and "total_time b / of_int (n_of b) = m"
  shows "result_le a b = Inr True \<and> result_le b a = Inr True \<and> \<not> result_eq a b
       \<and> (measured w (coach_id c) = [] \<longrightarrow>
            measured (measured_add c b (measured_add c a w)) (coach_id c) = [a, b])
       \<and> (0 < m \<longrightarrow>
            bar [a, b] = Inr [(m, []), (m, [(1, runner_name (runner_of a))])])
       \<and> (0 < m \<and> n_of x \<noteq> 0 \<and> total_time x / of_int (n_of x) = m
            \<and> result_id x \<noteq> result_id a \<and> result_id x \<noteq> result_id b \<longrightarrow>
            bar [a, b, x] = Inr [(m, []), (m, [(1, runner_name (runner_of a))]),
              (m, [(1, runner_name (runner_of a)), (1, runner_name (runner_of b))])])"
proof -
  have fa: "result_float a = Inr m" and fb: "result_float b = Inr m"
    using assms by (simp_all add: result_float_nonzero)
  have le: "result_le a b = Inr True" "result_le b a = Inr True"
    by (simp_all add: result_le_def fa fb)
  have ne: "\<not> result_eq a b" "\<not> result_eq b a"
    using assms(1) by (simp_all add: result_eq_def)
  have ms: "measured w (coach_id c) = [] \<Longrightarrow>
      measured (measured_add c b (measured_add c a w)) (coach_id c) = [a, b]"
    using ne by (simp add: measured_add_def)
  have ann_ba: "0 < m \<Longrightarrow> annotate b a = Inr [(1, runner_name (runner_of a))]"
    using ne
    by (simp add: annotate_def result_le_num_def result_truediv_def fa fb float_truediv_def)
  have ann_aa: "annotate a a = Inr []"
    by (simp add: annotate_def result_le_num_def fa result_eq_def)
  have bar2: "0 < m \<Longrightarrow> bar [a, b] = Inr [(m, []), (m, [(1, runner_name (runner_of a))])]"
    using ne by (simp add: bar_def fa fb ann_ba ann_aa result_eq_def)
  have bar3: "bar [a, b, x] = Inr [(m, []), (m, [(1, runner_name (runner_of a))]),
              (m, [(1, runner_name (runner_of a)), (1, runner_name (runner_of b))])]"
    if "0 < m" "n_of x \<noteq> 0" "total_time x / of_int (n_of x) = m"
       "result_id x \<noteq> result_id a" "result_id x \<noteq> result_id b"
  proof -
    have fx: "result_float x = Inr m"
      using that by (simp add: result_float_nonzero)
    have ann_xa: "annotate x a = Inr [(1, runner_name (runner_of a))]"
      using that
      by (simp add: annotate_def result_le_num_def result_truediv_def fa fx float_truediv_def
          result_eq_def)
    have ann_xb: "annotate x b = Inr [(1, runner_name (runner_of b))]"
      using that
      by (simp add: annotate_def result_le_num_def result_truediv_def fb fx float_truediv_def
          result_eq_def)
    show ?thesis
      using ne that by (simp add: bar_def fa fb fx ann_ba ann_aa ann_xa ann_xb result_eq_def)
  qed
  show ?thesis
    using le ne ms bar2 bar3 by blast
qed

theorem outcome_equality_is_identity_witness:
  "result_le (Result 0 (Runner 0 (PStr ''f'') (returns PNone 2)) 6 3)
             (Result 1 (Runner 1 (PStr ''g'') (returns PNone 2)) 4 2) = Inr True
   \<and> result_le (Result 1 (Runner 1 (PStr ''g'') (returns PNone 2)) 4 2)
               (Result 0 (Runner 0 (PStr ''f'') (returns PNone 2)) 6 3) = Inr True
   \<and> \<not> result_eq (Result 0 (Runner 0 (PStr ''f'') (returns PNone 2)) 6 3)
                   (Result 1 (Runner 1 (PStr ''g'') (returns PNone 2)) 4 2)
   \<and> bar [Result 0 (Runner 0 (PStr ''f'') (returns PNone 2)) 6 3,
          Result 1 (Runner 1 (PStr ''g'') (returns PNone 2)) 4 2]
       = Inr [(2, []), (2, [(1, PStr ''f'')])]
   \<and> measured (measured_add (new_coach 0 [] Coach)
         (Result 1 (Runner 1 (PStr ''g'') (returns PNone 2)) 4 2)
         (measured_add (new_coach 0 [] Coach)
           (Result 0 (Runner 0 (PStr ''f'') (returns PNone 2)) 6 3) fresh_world)) 0
       = [Result 0 (Runner 0 (PStr ''f'') (returns PNone 2)) 6 3,
          Result 1 (Runner 1 (PStr ''g'') (returns PNone 2)) 4 2]"
  using outcome_equality_is_identity [of "Result 0 (Runner 0 (PStr ''f'') (returns PNone 2)) 6 3"
      "Result 1 (Runner 1 (PStr ''g'') (returns PNone 2)) 4 2" 2 fresh_world
      "new_coach 0 [] Coach"]
  by (simp add: Result_def Runner_def fresh_world_def new_coach_def)

subsection \<open>Trials\<close>

text \<open>
  Claim C9: a trial declared with the positional subject index \<open>i\<close> and called with fewer
  than \<open>i + 1\<close> positional arguments raises the validation error, and so does a trial
  declared with the keyword \<open>k\<close> and called without it. The world is returned as it was:
  the trial function was not invoked, no wrapper was built, nothing was measured.
\<close>

theorem trial_missing_subject:
  "(int (length args) < i + 1 \<longrightarrow>
      trial c (Index i) func args kws w = Some (Inl (ValueError_positional i), w))
   \<and> (k \<notin> fst ` set kws \<longrightarrow>
      trial c (Key k) func args kws w = Some (Inl (ValueError_keyword k), w))"
proof -
  have "k \<notin> fst ` set kws \<Longrightarrow> map_of (filter (\<lambda>kv. fst kv \<noteq> ''__name__'') kws) k = None"
    by (simp add: map_of_eq_None_iff image_iff)
  then show ?thesis
    by (auto simp: trial_def Let_def)
qed

theorem trial_missing_subject_witness:
  "trial (new_coach 0 [] Coach) (Index 0) (returns PNone 1) [] [] fresh_world
     = Some (Inl (ValueError_positional 0), fresh_world)
   \<and> trial (new_coach 0 [] Coach) (Key ''cls'') (returns PNone 1) [PInt 3]
       [(''other'', PInt 1)] fresh_world
     = Some (Inl (ValueError_keyword ''cls''), fresh_world)"
  using trial_missing_subject [of "[]" 0 "new_coach 0 [] Coach" "returns PNone 1" "[]" fresh_world
          "''cls''"]
        trial_missing_subject [of "[PInt 3]" 0 "new_coach 0 [] Coach" "returns PNone 1"
          "[(''other'', PInt 1)]" fresh_world "''cls''"]
  by simp

subsection \<open>The sanity check comes before the timer\<close>

lemma invoke_effect:
  assumes "invoke r a k w = (out, w')"
  shows "measured w' = measured w \<and> results_of w' = results_of w \<and> next_id w' = next_id w
       \<and> recursion_limit w' = recursion_limit w
       \<and> (\<exists>evs. trace w' = trace w @ evs \<and> (\<forall>ev\<in>set evs. \<not> is_timer_event ev))"
  using assms by (auto simp: invoke_def split: sum.splits)

lemma sanity_check_effect:
  "sanity_check c r fixtures w = (out, w') \<Longrightarrow>
     measured w' = measured w \<and> results_of w' = results_of w \<and> next_id w' = next_id w
       \<and> recursion_limit w' = recursion_limit w
       \<and> (\<exists>evs. trace w' = trace w @ evs \<and> (\<forall>ev\<in>set evs. \<not> is_timer_event ev))"
proof (induction fixtures arbitrary: w)
  case Nil
  then show ?case by simp
next
  case (Cons fx fixtures)
  obtain sa expected where fx: "fx = (sa, expected)"
    by (cases fx)
  show ?case
  proof (cases "parse_argset sa")
    case (Inl e)
    with Cons.prems fx show ?thesis by simp
  next
    case (Inr p)
    obtain a k where p: "p = (a, k)"
      by (cases p)
    obtain res el w1 where inv: "invoke r a k w = ((res, el), w1)"
      by (metis prod.exhaust)
    note e1 = invoke_effect [OF inv]
    show ?thesis
    proof (cases res)
      case (Inl e)
      with Cons.prems fx Inr p inv e1 show ?thesis by simp
    next
      case act: (Inr actual)
      show ?thesis
      proof (cases "sane (recursion_limit w1) (sanity_tol c) expected actual")
        case (Inl e)
        with Cons.prems fx Inr p inv e1 act show ?thesis by simp
      next
        case ok: (Inr ok)
        show ?thesis
        proof (cases ok)
          case False
          with Cons.prems fx Inr p inv e1 act ok show ?thesis by simp
        next
          case True
          with Cons.prems fx Inr p inv act ok
          have "sanity_check c r fixtures w1 = (out, w')"
            by simp
          from Cons.IH [OF this] e1 show ?thesis
            by auto
        qed
      qed
    qed
  qed
qed

lemma sanity_check_append:
  "sanity_check c r (xs @ ys) w =
     (case sanity_check c r xs w of
        (None, w') \<Rightarrow> sanity_check c r ys w'
      | (Some e, w') \<Rightarrow> (Some e, w'))"
  by (induction xs arbitrary: w) (auto split: sum.splits prod.splits option.splits)

lemma to_runner_effect:
  assumes "(case x of Wrapped r \<Rightarrow> (Inr r, w) | _ \<Rightarrow> to_runner x w) = (out, w0)"
  shows "measured w0 = measured w \<and> results_of w0 = results_of w \<and> trace w0 = trace w
       \<and> recursion_limit w0 = recursion_limit w \<and> next_id w \<le> next_id w0"
  using assms by (cases x) (auto simp: to_runner_def)

text \<open>Two different one-character strings: the comparison re-enters itself until no frame is left.\<close>

lemma sane_one_character_strings:
  "sane d tol (PStr ''b'') (PStr ''c'') = Inl RecursionError"
  by (induction d) (simp_all add: is_number_def is_Iterable_def)

text \<open>
  Claim C2 says that a candidate whose result on a fixture is not sane-equal to the
  expected value makes the Orchestrator raise the error that reports the expected and the
  actual value, before the Clock Accumulator is created and with the candidate never
  timed nor added to the measured set. In the code every fixture whose comparison does
  not return true (the fixtures before it having passed) makes \<^verbatim>\<open>Coach.__call__\<close> raise
  with no Clock Accumulator created, no window opened, and the measured set and the
  cached Outcomes unchanged. The error reports the expected and the actual value when
  the comparison returned false; when the comparison itself raised, the caller gets that
  exception instead: for the expected value \<^verbatim>\<open>'b'\<close> and the actual result \<^verbatim>\<open>'c'\<close> it is
  \<^verbatim>\<open>RecursionError\<close>, and for expected 1 and actual 2 it is the reporting error.
\<close>

theorem failed_sanity_raises_before_timing:
  assumes runner: "(case x of Wrapped r \<Rightarrow> (Inr r, w) | _ \<Rightarrow> to_runner x w) = (Inr r, w0)"
    and fixtures: "sanity_argsets c = passed @ (sa, expected) # rest"
    and earlier: "sanity_check c r passed w0 = (None, w1)"
    and parse: "parse_argset sa = Inr (a, k)"
    and actual: "invoke r a k w1 = ((Inr actual, elapsed), w2)"
    and verdict: "sane (recursion_limit w2) (sanity_tol c) expected actual = verdict"
    and not_sane: "verdict \<noteq> Inr True"
  shows "coach_call c x w
           = Some (Inl (case verdict of Inl e \<Rightarrow> e | Inr ok \<Rightarrow> ValueError_vs expected actual), w2)
       \<and> (\<exists>evs. trace w2 = trace w @ evs \<and> (\<forall>ev\<in>set evs. \<not> is_timer_event ev))
       \<and> measured w2 = measured w \<and> results_of w2 = results_of w"
proof -
  let ?e = "case verdict of Inl e \<Rightarrow> e | Inr ok \<Rightarrow> ValueError_vs expected actual"
  have fail: "sanity_check c r (sanity_argsets c) w0 = (Some ?e, w2)"
  proof (cases verdict)
    case (Inl e)
    with earlier parse actual verdict show ?thesis
      by (simp add: fixtures sanity_check_append)
  next
    case (Inr ok)
    with not_sane have "\<not> ok"
      by simp
    with Inr earlier parse actual verdict show ?thesis
      by (simp add: fixtures sanity_check_append)
  qed
  have call: "coach_call c x w = Some (Inl ?e, w2)"
    using runner fail by (simp add: coach_call_def)
  note e0 = to_runner_effect [OF runner]
  note e1 = sanity_check_effect [OF fail]
  from e0 e1 call show ?thesis
    by auto
qed

theorem failed_sanity_raises_before_timing_witness:
  "coach_call (new_coach 0 [(PTuple [], PStr ''b'')] Coach)
      (Callable (PStr ''f'') (returns (PStr ''c'') 1)) fresh_world
   = Some (Inl RecursionError,
       fresh_world\<lparr>next_id := 1, calls := 1, trace := [Invoked 0 [] []]\<rparr>)
   \<and> coach_call (new_coach 0 [(PTuple [], PInt 1)] Coach)
      (Callable (PStr ''f'') (returns (PInt 2) 1)) fresh_world
   = Some (Inl (ValueError_vs (PInt 1) (PInt 2)),
       fresh_world\<lparr>next_id := 1, calls := 1, trace := [Invoked 0 [] []]\<rparr>)
   \<and> measured (fresh_world\<lparr>next_id := 1, calls := 1, trace := [Invoked 0 [] []]\<rparr>)
       = measured fresh_world"
proof -
  let ?w0 = "fresh_world\<lparr>next_id := 1\<rparr>"
  let ?w2 = "fresh_world\<lparr>next_id := 1, calls := 1, trace := [Invoked 0 [] []]\<rparr>"
  have parse: "parse_argset (PTuple []) = Inr (PTuple [], PDict [])"
    by (simp add: parse_argset_def is_Iterable_def)
  have n: "recursion_limit ?w2 = Suc 999"
    by (simp add: fresh_world_def)
  have strings: "coach_call (new_coach 0 [(PTuple [], PStr ''b'')] Coach)
      (Callable (PStr ''f'') (returns (PStr ''c'') 1)) fresh_world = Some (Inl RecursionError, ?w2)"
  proof -
    let ?f = "Callable (PStr ''f'') (returns (PStr ''c'') 1)"
    let ?r = "Runner 0 (PStr ''f'') (returns (PStr ''c'') 1)"
    let ?c = "new_coach 0 [(PTuple [], PStr ''b'')] Coach"
    have h1: "(case ?f of Wrapped r \<Rightarrow> (Inr r, fresh_world) | _ \<Rightarrow> to_runner ?f fresh_world)
        = (Inr ?r, ?w0)"
      by (simp add: to_runner_def fresh_world_def)
    have h2: "sanity_argsets ?c = [] @ (PTuple [], PStr ''b'') # []"
      by (simp add: new_coach_def)
    have h3: "sanity_check ?c ?r [] ?w0 = (None, ?w0)"
      by simp
    have h5: "invoke ?r (PTuple []) (PDict []) ?w0 = ((Inr (PStr ''c''), 1), ?w2)"
      by (simp add: invoke_def star_args_def returns_def fresh_world_def Runner_def)
    have h6: "sane (recursion_limit ?w2) (sanity_tol ?c) (PStr ''b'') (PStr ''c'')
        = Inl RecursionError"
      by (rule sane_one_character_strings)
    have h7: "(Inl RecursionError :: error + bool) \<noteq> Inr True"
      by simp
    from failed_sanity_raises_before_timing [OF h1 h2 h3 parse h5 h6 h7] show ?thesis
      by simp
  qed
  have numbers: "coach_call (new_coach 0 [(PTuple [], PInt 1)] Coach)
      (Callable (PStr ''f'') (returns (PInt 2) 1)) fresh_world
      = Some (Inl (ValueError_vs (PInt 1) (PInt 2)), ?w2)"
  proof -
    let ?f = "Callable (PStr ''f'') (returns (PInt 2) 1)"
    let ?r = "Runner 0 (PStr ''f'') (returns (PInt 2) 1)"
    let ?c = "new_coach 0 [(PTuple [], PInt 1)] Coach"
    have h1: "(case ?f of Wrapped r \<Rightarrow> (Inr r, fresh_world) | _ \<Rightarrow> to_runner ?f fresh_world)
        = (Inr ?r, ?w0)"
      by (simp add: to_runner_def fresh_world_def)
    have h2: "sanity_argsets ?c = [] @ (PTuple [], PInt 1) # []"
      by (simp add: new_coach_def)
    have h3: "sanity_check ?c ?r [] ?w0 = (None, ?w0)"
      by simp
    have h5: "invoke ?r (PTuple []) (PDict []) ?w0 = ((Inr (PInt 2), 1), ?w2)"
      by (simp add: invoke_def star_args_def returns_def fresh_world_def Runner_def)
    have h6: "sane (recursion_limit ?w2) (sanity_tol ?c) (PInt 1) (PInt 2) = Inr False"
      unfolding n by (subst sane_on_numbers [of _ 1 _ 2]) (simp_all add: new_coach_def rel_tol_def)
    have h7: "(Inr False :: error + bool) \<noteq> Inr True"
      by simp
    from failed_sanity_raises_before_timing [OF h1 h2 h3 parse h5 h6 h7] show ?thesis
      by simp
  qed
  from strings numbers show ?thesis
    by simp
qed

subsection \<open>The fixed-sweep policy\<close>

text \<open>A call that unpacks and does not raise: the window, the invocation, the count.\<close>

lemma timed_call_returns:
  assumes "star_args (fst p) = Inr xs" and "star_kwargs (snd p) = Inr ks"
    and "target r (calls w) xs ks = (Inr v, el)"
  shows "timed_call r p t n w =
     (Inr (timer_add t el, Suc n),
      w\<lparr>calls := Suc (calls w),
        trace := trace w @ [Resumed (total t), Invoked (runner_id r) xs ks, Released (total t + el)]\<rparr>)"
  using assms by (simp add: timed_call_def invoke_def timer_add_def)

lemma spec_keywords_unpacked:
  "spec_keywords d = Some ks \<Longrightarrow> kw_of d = Inr ks"
proof (induction d arbitrary: ks)
  case Nil
  then show ?case by simp
next
  case (Cons kv d)
  obtain k v where kv: "kv = (k, v)"
    by (cases kv)
  with Cons.prems obtain s ks' where "k = PStr s" "spec_keywords d = Some ks'" "ks = (s, v) # ks'"
    by (cases k) auto
  with Cons.IH kv show ?case
    by simp
qed

text \<open>
  On every well-formed shorthand that is not a bare mapping, what \<^verbatim>\<open>parse_argset\<close> returns
  unpacks to the positional and named values of the spec's canonical pair.
\<close>

lemma parse_argset_refines_spec:
  assumes "spec_arguments a = Some (xs, ks)" and "\<not> is_Mapping a"
  shows "\<exists>p. parse_argset a = Inr p \<and> star_args (fst p) = Inr xs \<and> star_kwargs (snd p) = Inr ks"
  using assms
  by (induction a rule: spec_arguments.induct)
     (auto simp: parse_argset_def is_Iterable_def star_args_def dest: spec_keywords_unpacked)

lemma arg_pass_returns:
  assumes noraise: "\<forall>k xs ks. \<exists>v el. target r k xs ks = (Inr v, el)"
  shows "map spec_arguments argsets = map Some canon \<Longrightarrow> \<forall>a\<in>set argsets. \<not> is_Mapping a \<Longrightarrow>
     \<exists>t' w' evs. arg_pass r argsets t n w = (Inr (t', n + length argsets), w')
       \<and> trace w' = trace w @ evs
       \<and> filter is_Invoked evs = map (\<lambda>(xs, ks). Invoked (runner_id r) xs ks) canon
       \<and> length (filter is_Resumed evs) = length argsets
       \<and> next_id w' = next_id w \<and> measured w' = measured w \<and> results_of w' = results_of w"
proof (induction argsets arbitrary: canon t n w)
  case Nil
  then show ?case by simp
next
  case (Cons a argsets)
  from Cons.prems(1) obtain xs ks canon' where canon: "canon = (xs, ks) # canon'"
    and a: "spec_arguments a = Some (xs, ks)"
    and rest_canon: "map spec_arguments argsets = map Some canon'"
    by (cases canon) auto
  from Cons.prems(2) have "\<not> is_Mapping a" and rest_plain: "\<forall>a\<in>set argsets. \<not> is_Mapping a"
    by simp_all
  from parse_argset_refines_spec [OF a this(1)] obtain p where
    p: "parse_argset a = Inr p" "star_args (fst p) = Inr xs" "star_kwargs (snd p) = Inr ks"
    by blast
  from noraise obtain v el where tgt: "target r (calls w) xs ks = (Inr v, el)"
    by blast
  let ?w1 = "w\<lparr>calls := Suc (calls w),
        trace := trace w @ [Resumed (total t), Invoked (runner_id r) xs ks, Released (total t + el)]\<rparr>"
  have step: "timed_call r p t n w = (Inr (timer_add t el, Suc n), ?w1)"
    using p(2,3) tgt by (rule timed_call_returns)
  from Cons.IH [OF rest_canon rest_plain, of "timer_add t el" "Suc n" ?w1]
  obtain t' w' evs where rest:
    "arg_pass r argsets (timer_add t el) (Suc n) ?w1 = (Inr (t', Suc n + length argsets), w')"
    "trace w' = trace ?w1 @ evs"
    "filter is_Invoked evs = map (\<lambda>(xs, ks). Invoked (runner_id r) xs ks) canon'"
    "length (filter is_Resumed evs) = length argsets"
    "next_id w' = next_id ?w1" "measured w' = measured ?w1" "results_of w' = results_of ?w1"
    by blast
  have "arg_pass r (a # argsets) t n w = (Inr (t', n + length (a # argsets)), w')"
    using p(1) step rest(1) by simp
  moreover have "trace w' = trace w
      @ ([Resumed (total t), Invoked (runner_id r) xs ks, Released (total t + el)] @ evs)"
    using rest(2) by simp
  moreover have "filter is_Invoked
      ([Resumed (total t), Invoked (runner_id r) xs ks, Released (total t + el)] @ evs)
      = map (\<lambda>(xs, ks). Invoked (runner_id r) xs ks) canon"
    using rest(3) canon by simp
  moreover have "length (filter is_Resumed
      ([Resumed (total t), Invoked (runner_id r) xs ks, Released (total t + el)] @ evs))
      = length (a # argsets)"
    using rest(4) by simp
  moreover have "next_id w' = next_id w" "measured w' = measured w" "results_of w' = results_of w"
    using rest(5,6,7) by simp_all
  ultimately show ?case
    by blast
qed

lemma arg_run_returns:
  assumes noraise: "\<forall>k xs ks. \<exists>v el. target r k xs ks = (Inr v, el)"
    and canon: "map spec_arguments argsets = map Some canon"
    and plain: "\<forall>a\<in>set argsets. \<not> is_Mapping a"
  shows "\<exists>t' w' evs. arg_run m r argsets t n w = (Inr (t', n + m * length argsets), w')
       \<and> trace w' = trace w @ evs
       \<and> filter is_Invoked evs
           = concat (replicate m (map (\<lambda>(xs, ks). Invoked (runner_id r) xs ks) canon))
       \<and> length (filter is_Resumed evs) = m * length argsets
       \<and> next_id w' = next_id w \<and> measured w' = measured w \<and> results_of w' = results_of w"
proof (induction m arbitrary: t n w)
  case 0
  then show ?case by simp
next
  case (Suc m)
  from arg_pass_returns [OF noraise canon plain, of t n w]
  obtain t1 w1 evs1 where pass:
    "arg_pass r argsets t n w = (Inr (t1, n + length argsets), w1)"
    "trace w1 = trace w @ evs1"
    "filter is_Invoked evs1 = map (\<lambda>(xs, ks). Invoked (runner_id r) xs ks) canon"
    "length (filter is_Resumed evs1) = length argsets"
    "next_id w1 = next_id w" "measured w1 = measured w" "results_of w1 = results_of w"
    by blast
  from Suc.IH [of t1 "n + length argsets" w1]
  obtain t' w' evs where rest:
    "arg_run m r argsets t1 (n + length argsets) w1
       = (Inr (t', n + length argsets + m * length argsets), w')"
    "trace w' = trace w1 @ evs"
    "filter is_Invoked evs
       = concat (replicate m (map (\<lambda>(xs, ks). Invoked (runner_id r) xs ks) canon))"
    "length (filter is_Resumed evs) = m * length argsets"
    "next_id w' = next_id w1" "measured w' = measured w1" "results_of w' = results_of w1"
    by blast
  have "arg_run (Suc m) r argsets t n w = (Inr (t', n + Suc m * length argsets), w')"
    using pass(1) rest(1) by (simp add: add.assoc)
  moreover have "trace w' = trace w @ (evs1 @ evs)"
    using pass(2) rest(2) by simp
  moreover have "filter is_Invoked (evs1 @ evs)
      = concat (replicate (Suc m) (map (\<lambda>(xs, ks). Invoked (runner_id r) xs ks) canon))"
    using pass(3) rest(3) by simp
  moreover have "length (filter is_Resumed (evs1 @ evs)) = Suc m * length argsets"
    using pass(4) rest(4) by simp
  moreover have "next_id w' = next_id w" "measured w' = measured w" "results_of w' = results_of w"
    using pass(5,6,7) rest(5,6,7) by simp_all
  ultimately show ?case
    by blast
qed

text \<open>
  Claim C5 says that a fixed-sweep run with repeat count \<open>R\<close> over \<open>K\<close> argument sets makes
  exactly \<open>R * K\<close> invocations, the argument sets in their order and in canonical-pair
  form, the pass repeated \<open>R\<close> times, and returns an Outcome with call count \<open>R * K\<close>.
  In the code this holds when no argument set is a bare mapping (each being well
  formed, the candidate passing its fixtures and raising on no call): after the timer is
  created the candidate is invoked, each time in a window of its own, with the positional
  and named values of the spec's canonical pairs \<open>canon\<close>, in order, \<open>R\<close> times over.
  For the bare mapping \<^verbatim>\<open>{'x': 1}\<close> the canonical pair is keyword-only, \<^verbatim>\<open>f(x=1)\<close>, and the
  code calls \<^verbatim>\<open>f('x')\<close>: the mapping reaches the Iterable branch of \<^verbatim>\<open>parse_argset\<close>.
\<close>

theorem fixed_sweep_call_count:
  assumes pol: "policy c = ArgCoach R argsets" and count: "0 \<le> R"
    and runner: "(case x of Wrapped r \<Rightarrow> (Inr r, w) | _ \<Rightarrow> to_runner x w) = (Inr r, w0)"
    and fixtures: "sanity_check c r (sanity_argsets c) w0 = (None, w1)"
    and canon: "map spec_arguments argsets = map Some canon"
    and plain: "\<forall>a\<in>set argsets. \<not> is_Mapping a"
    and noraise: "\<forall>k xs ks. \<exists>v el. target r k xs ks = (Inr v, el)"
  shows "(\<exists>ret w' evs. coach_call c x w = Some (Inr ret, w')
           \<and> n_of ret = R * int (length argsets)
           \<and> trace w' = trace w1 @ TimerCreated # evs
           \<and> filter is_Invoked evs
               = concat (replicate (nat R) (map (\<lambda>(xs, ks). Invoked (runner_id r) xs ks) canon))
           \<and> length (filter is_Resumed evs) = nat R * length argsets)
       \<and> spec_arguments (PDict [(PStr ''x'', PInt 1)]) = Some ([], [(''x'', PInt 1)])
       \<and> (case coach_call (new_coach 0 [] (ArgCoach 1 [PDict [(PStr ''x'', PInt 1)]]))
                 (Callable (PStr ''f'') (returns PNone 1)) fresh_world of
             Some (Inr ret, w') \<Rightarrow>
               n_of ret = 1 \<and> filter is_Invoked (trace w') = [Invoked 0 [PStr ''x''] []]
           | _ \<Rightarrow> False)"
proof -
  let ?w2 = "w1\<lparr>trace := trace w1 @ [TimerCreated]\<rparr>"
  from arg_run_returns [OF noraise canon plain, of "nat R" Timer 0 ?w2]
  obtain t' w3 evs where run:
    "arg_run (nat R) r argsets Timer 0 ?w2 = (Inr (t', 0 + nat R * length argsets), w3)"
    "trace w3 = trace ?w2 @ evs"
    "filter is_Invoked evs
       = concat (replicate (nat R) (map (\<lambda>(xs, ks). Invoked (runner_id r) xs ks) canon))"
    "length (filter is_Resumed evs) = nat R * length argsets"
    by blast
  let ?ret = "Result (next_id w3) r (total t') (int (nat R * length argsets))"
  let ?w' = "measured_add c ?ret (assign_result r c ?ret (w3\<lparr>next_id := Suc (next_id w3)\<rparr>))"
  have "coach_call c x w = Some (Inr ?ret, ?w')"
    using runner fixtures run(1) by (simp add: coach_call_def pol iter_argsets_run_def Let_def)
  moreover have "n_of ?ret = R * int (length argsets)"
    using count by (simp add: Result_def)
  moreover have "trace ?w' = trace w1 @ TimerCreated # evs"
    using run(2) by (simp add: measured_add_def assign_result_def)
  ultimately have sweep: "\<exists>ret w' evs. coach_call c x w = Some (Inr ret, w')
           \<and> n_of ret = R * int (length argsets)
           \<and> trace w' = trace w1 @ TimerCreated # evs
           \<and> filter is_Invoked evs
               = concat (replicate (nat R) (map (\<lambda>(xs, ks). Invoked (runner_id r) xs ks) canon))
           \<and> length (filter is_Resumed evs) = nat R * length argsets"
    using run(3,4) by blast
  have spec: "spec_arguments (PDict [(PStr ''x'', PInt 1)]) = Some ([], [(''x'', PInt 1)])"
    by simp
  have code: "(case coach_call (new_coach 0 [] (ArgCoach 1 [PDict [(PStr ''x'', PInt 1)]]))
                 (Callable (PStr ''f'') (returns PNone 1)) fresh_world of
             Some (Inr ret, w') \<Rightarrow>
               n_of ret = 1 \<and> filter is_Invoked (trace w') = [Invoked 0 [PStr ''x''] []]
           | _ \<Rightarrow> False)"
    by (simp add: coach_call_def to_runner_def new_coach_def fresh_world_def iter_argsets_run_def
        Timer_def Result_def Runner_def measured_add_def assign_result_def parse_argset_def
        is_Iterable_def timed_call_def invoke_def star_args_def returns_def timer_add_def Let_def)
  from sweep spec code show ?thesis
    by blast
qed

theorem fixed_sweep_call_count_witness:
  "\<exists>ret w' evs.
     coach_call (new_coach 0 []
         (ArgCoach 3 [PTuple [PInt 1], PTuple [PTuple [PInt 2], PDict [(PStr ''x'', PInt 3)]]]))
       (Callable (PStr ''f'') (returns PNone 1)) fresh_world = Some (Inr ret, w')
     \<and> n_of ret = 6
     \<and> trace w' = TimerCreated # evs
     \<and> filter is_Invoked evs
         = [Invoked 0 [PInt 1] [], Invoked 0 [PInt 2] [(''x'', PInt 3)],
            Invoked 0 [PInt 1] [], Invoked 0 [PInt 2] [(''x'', PInt 3)],
            Invoked 0 [PInt 1] [], Invoked 0 [PInt 2] [(''x'', PInt 3)]]
     \<and> length (filter is_Resumed evs) = 6"
proof -
  let ?argsets = "[PTuple [PInt 1], PTuple [PTuple [PInt 2], PDict [(PStr ''x'', PInt 3)]]]"
  let ?c = "new_coach 0 [] (ArgCoach 3 ?argsets)"
  let ?f = "Callable (PStr ''f'') (returns PNone 1)"
  let ?r = "Runner 0 (PStr ''f'') (returns PNone 1)"
  let ?w0 = "fresh_world\<lparr>next_id := 1\<rparr>"
  have h1: "policy ?c = ArgCoach 3 ?argsets"
    by (simp add: new_coach_def)
  have h2: "(0::int) \<le> 3"
    by simp
  have h3: "(case ?f of Wrapped r \<Rightarrow> (Inr r, fresh_world) | _ \<Rightarrow> to_runner ?f fresh_world)
      = (Inr ?r, ?w0)"
    by (simp add: to_runner_def fresh_world_def)
  have h4: "sanity_check ?c ?r (sanity_argsets ?c) ?w0 = (None, ?w0)"
    by (simp add: new_coach_def)
  have h5: "map spec_arguments ?argsets = map Some [([PInt 1], []), ([PInt 2], [(''x'', PInt 3)])]"
    by simp
  have h6: "\<forall>a\<in>set ?argsets. \<not> is_Mapping a"
    by simp
  have h7: "\<forall>k xs ks. \<exists>v el. target ?r k xs ks = (Inr v, el)"
    by (simp add: Runner_def returns_def)
  have three: "nat 3 = Suc (Suc (Suc 0))"
    by simp
  have six: "Suc (Suc (Suc (Suc (Suc (Suc 0))))) = 6"
    by simp
  have rid: "runner_id ?r = 0"
    by (simp add: Runner_def)
  from fixed_sweep_call_count [OF h1 h2 h3 h4 h5 h6 h7] show ?thesis
    unfolding three rid by (simp add: fresh_world_def six)
qed

subsection \<open>The time-boxed policy\<close>






subsection \<open>Comparing the measured candidates\<close>

lemma result_lt_means:
  "n_of a \<noteq> 0 \<Longrightarrow> n_of b \<noteq> 0 \<Longrightarrow> result_lt a b = Inr (mean a < mean b)"
  by (simp add: result_lt_def result_float_nonzero mean_def)

lemma insert_sorted_returns:
  assumes "n_of x \<noteq> 0"
  shows "\<forall>y\<in>set ys. n_of y \<noteq> 0 \<Longrightarrow> sorted_wrt (\<lambda>a b. mean a \<le> mean b) ys \<Longrightarrow>
     \<exists>zs. insert_sorted x ys = Inr zs \<and> mset zs = add_mset x (mset ys)
        \<and> sorted_wrt (\<lambda>a b. mean a \<le> mean b) zs"
proof (induction ys)
  case Nil
  then show ?case by simp
next
  case (Cons y ys)
  from Cons.prems have y: "n_of y \<noteq> 0" and ys: "\<forall>y\<in>set ys. n_of y \<noteq> 0"
    and above: "\<forall>z\<in>set ys. mean y \<le> mean z" and sorted: "sorted_wrt (\<lambda>a b. mean a \<le> mean b) ys"
    by simp_all
  have lt: "result_lt x y = Inr (mean x < mean y)"
    using assms y by (rule result_lt_means)
  show ?case
  proof (cases "mean x < mean y")
    case True
    with above have "\<forall>z\<in>set (y # ys). mean x \<le> mean z"
      by fastforce
    with True lt Cons.prems(2) show ?thesis
      by simp
  next
    case False
    from Cons.IH [OF ys sorted] obtain zs where zs: "insert_sorted x ys = Inr zs"
      "mset zs = add_mset x (mset ys)" "sorted_wrt (\<lambda>a b. mean a \<le> mean b) zs"
      by blast
    from zs(2) have "set zs = insert x (set ys)"
      by (metis set_mset_add_mset_insert set_mset_mset)
    with False above have "\<forall>z\<in>set zs. mean y \<le> mean z"
      by auto
    with False lt zs show ?thesis
      by simp
  qed
qed

lemma sorted_from_returns:
  "\<forall>y\<in>set acc \<union> set xs. n_of y \<noteq> 0 \<Longrightarrow> sorted_wrt (\<lambda>a b. mean a \<le> mean b) acc \<Longrightarrow>
     \<exists>zs. sorted_from acc xs = Inr zs \<and> mset zs = mset acc + mset xs
        \<and> sorted_wrt (\<lambda>a b. mean a \<le> mean b) zs"
proof (induction xs arbitrary: acc)
  case Nil
  then show ?case by simp
next
  case (Cons x xs)
  from Cons.prems have "n_of x \<noteq> 0" "\<forall>y\<in>set acc. n_of y \<noteq> 0"
    by simp_all
  from insert_sorted_returns [OF this Cons.prems(2)]
  obtain acc' where acc': "insert_sorted x acc = Inr acc'" "mset acc' = add_mset x (mset acc)"
    "sorted_wrt (\<lambda>a b. mean a \<le> mean b) acc'"
    by blast
  from acc'(2) have "set acc' = insert x (set acc)"
    by (metis set_mset_add_mset_insert set_mset_mset)
  with Cons.prems(1) have "\<forall>y\<in>set acc' \<union> set xs. n_of y \<noteq> 0"
    by auto
  from Cons.IH [OF this acc'(3)] obtain zs where "sorted_from acc' xs = Inr zs"
    "mset zs = mset acc' + mset xs" "sorted_wrt (\<lambda>a b. mean a \<le> mean b) zs"
    by blast
  with acc'(1,2) show ?case
    by simp
qed

lemma py_sorted_returns:
  assumes "\<forall>y\<in>set xs. n_of y \<noteq> 0"
  shows "\<exists>zs. py_sorted xs = Inr zs \<and> mset zs = mset xs
        \<and> sorted_wrt (\<lambda>a b. mean a \<le> mean b) zs"
  using sorted_from_returns [of "[]" xs] assms by (simp add: py_sorted_def)

lemma compare_collect_outcomes:
  "compare_collect c (map Outcome xs) results w = Some (Inr (results @ xs), w)"
  by (induction xs arbitrary: results) simp_all

lemma coach_call_caches:
  assumes "coach_call c (Wrapped r) w = Some (Inr ret, w')"
  shows "cached c (Wrapped r) w' = Some ret"
  using assms
  by (auto simp: coach_call_def cached_def measured_add_def assign_result_def Let_def
      split: prod.splits option.splits sum.splits if_splits)

text \<open>
  Claim C3, as amended: when every Outcome in the measured set has a call count other
  than zero, \<^verbatim>\<open>compare()\<close> with no arguments returns, in whatever order the set is
  iterated, exactly the Outcomes of the measured set (each as often as the set holds it,
  which is once), sorted ascending by mean per-call duration, and measures nothing.
  For explicit candidates an Outcome is used as it is, a wrapper whose cached-Outcome
  mapping contains this Orchestrator contributes the cached Outcome with no call of the
  Orchestrator, any other candidate is run through \<^verbatim>\<open>Coach.__call__\<close>, and a wrapper that
  was just measured holds its Outcome in the cache.
\<close>

theorem compare_measured_sorted:
  assumes order: "mset (set_order (measured w (coach_id c))) = mset (measured w (coach_id c))"
    and counts: "\<forall>res\<in>set (measured w (coach_id c)). n_of res \<noteq> 0"
  shows "(\<exists>source. compare c set_order [] w = Some (Inr source, w)
            \<and> mset source = mset (measured w (coach_id c))
            \<and> sorted_wrt (\<lambda>a b. mean a \<le> mean b) source
            \<and> (distinct (map result_id (measured w (coach_id c)))
                 \<longrightarrow> distinct (map result_id source)))
       \<and> compare_collect c (Outcome res # objs) results w
           = compare_collect c objs (results @ [res]) w
       \<and> (results_of w (runner_id r) (coach_id c) = Some res \<longrightarrow>
            compare_collect c (Wrapped r # objs) results w
              = compare_collect c objs (results @ [res]) w)
       \<and> (cached c x w = None \<and> (\<forall>res'. x \<noteq> Outcome res') \<longrightarrow>
            compare_collect c (x # objs) results w
              = (case coach_call c x w of
                   None \<Rightarrow> None
                 | Some (Inl e, w') \<Rightarrow> Some (Inl e, w')
                 | Some (Inr res', w') \<Rightarrow> compare_collect c objs (results @ [res']) w'))
       \<and> (coach_call c (Wrapped r) w = Some (Inr ret, w') \<longrightarrow>
            compare c set_order [Wrapped r] w' = Some (Inr [ret], w'))"
proof -
  let ?m = "measured w (coach_id c)"
  from order have same: "set (set_order ?m) = set ?m"
    by (metis set_mset_mset)
  with counts have "\<forall>y\<in>set (set_order ?m). n_of y \<noteq> 0"
    by simp
  from py_sorted_returns [OF this] obtain source where source:
    "py_sorted (set_order ?m) = Inr source" "mset source = mset (set_order ?m)"
    "sorted_wrt (\<lambda>a b. mean a \<le> mean b) source"
    by blast
  have "compare c set_order [] w = Some (Inr source, w)"
    using source(1) by (simp add: compare_def compare_collect_outcomes)
  moreover have "mset source = mset ?m"
    using source(2) order by simp
  moreover have "distinct (map result_id source)" if "distinct (map result_id ?m)"
  proof -
    from \<open>mset source = mset ?m\<close> have "mset (map result_id source) = mset (map result_id ?m)"
      by simp
    with that show ?thesis
      by (metis mset_eq_imp_distinct_iff)
  qed
  moreover have "compare_collect c (Outcome res # objs) results w
      = compare_collect c objs (results @ [res]) w"
    by simp
  moreover have "compare_collect c (Wrapped r # objs) results w
      = compare_collect c objs (results @ [res]) w"
    if "results_of w (runner_id r) (coach_id c) = Some res"
    using that by (simp add: cached_def)
  moreover have "compare_collect c (x # objs) results w
      = (case coach_call c x w of
           None \<Rightarrow> None
         | Some (Inl e, w') \<Rightarrow> Some (Inl e, w')
         | Some (Inr res', w') \<Rightarrow> compare_collect c objs (results @ [res']) w')"
    if "cached c x w = None \<and> (\<forall>res'. x \<noteq> Outcome res')"
    using that by (cases x) simp_all
  moreover have "compare c set_order [Wrapped r] w' = Some (Inr [ret], w')"
    if "coach_call c (Wrapped r) w = Some (Inr ret, w')"
    using coach_call_caches [OF that] by (simp add: compare_def py_sorted_def)
  ultimately show ?thesis
    using source(3) by blast
qed

theorem compare_measured_sorted_witness:
  "\<exists>source.
     compare (new_coach 0 [] Coach) rev []
       (fresh_world\<lparr>measured := (\<lambda>cid. [Result 1 (Runner 0 (PStr ''f'') (returns PNone 2)) 2 1,
                                         Result 3 (Runner 2 (PStr ''g'') (returns PNone 1)) 1 1])\<rparr>)
     = Some (Inr source,
         fresh_world\<lparr>measured := (\<lambda>cid. [Result 1 (Runner 0 (PStr ''f'') (returns PNone 2)) 2 1,
                                         Result 3 (Runner 2 (PStr ''g'') (returns PNone 1)) 1 1])\<rparr>)
     \<and> mset source = mset [Result 1 (Runner 0 (PStr ''f'') (returns PNone 2)) 2 1,
                            Result 3 (Runner 2 (PStr ''g'') (returns PNone 1)) 1 1]
     \<and> sorted_wrt (\<lambda>a b. mean a \<le> mean b) source"
proof -
  let ?a = "Result 1 (Runner 0 (PStr ''f'') (returns PNone 2)) 2 1"
  let ?b = "Result 3 (Runner 2 (PStr ''g'') (returns PNone 1)) 1 1"
  let ?w = "fresh_world\<lparr>measured := (\<lambda>cid. [?a, ?b])\<rparr>"
  let ?c = "new_coach 0 [] Coach"
  have h1: "mset (rev (measured ?w (coach_id ?c))) = mset (measured ?w (coach_id ?c))"
    by simp
  have h2: "\<forall>res\<in>set (measured ?w (coach_id ?c)). n_of res \<noteq> 0"
    by (simp add: Result_def)
  have m: "measured ?w (coach_id ?c) = [?a, ?b]"
    by simp
  from compare_measured_sorted [where set_order = rev and w = ?w and c = ?c, OF h1 h2]
  show ?thesis
    unfolding m by blast
qed

text \<open>
  Claim C3 as it is written fails for an Orchestrator whose policy yields no argument
  set: a fixed sweep over an empty sequence gives each candidate an Outcome with call
  count zero, and with two such Outcomes in the measured set \<^verbatim>\<open>compare()\<close> raises
  \<^verbatim>\<open>ZeroDivisionError\<close> from the first comparison of \<^verbatim>\<open>sorted\<close>.
\<close>

theorem compare_without_calls_counterexample:
  "(case coach_call (new_coach 0 [] (ArgCoach 1 [])) (Callable (PStr ''f'') (returns PNone 1))
          fresh_world of
      Some (Inr rf, w1) \<Rightarrow>
        (case coach_call (new_coach 0 [] (ArgCoach 1 [])) (Callable (PStr ''g'') (returns PNone 1))
                w1 of
           Some (Inr rg, w2) \<Rightarrow>
             measured w2 0 = [rf, rg]
             \<and> compare (new_coach 0 [] (ArgCoach 1 [])) (\<lambda>xs. xs) [] w2
                 = Some (Inl ZeroDivisionError, w2)
         | _ \<Rightarrow> False)
    | _ \<Rightarrow> False)"
  by (simp add: coach_call_def to_runner_def new_coach_def fresh_world_def iter_argsets_run_def
      Timer_def Result_def Runner_def measured_add_def assign_result_def result_eq_def
      compare_def py_sorted_def result_lt_def result_float_def float_truediv_def Let_def)

end
